theory Spec2Isabelle
  imports Complex_Main "HOL-Library.AList"
begin

section \<open>Python values and exceptions\<close>

text \<open>
  The service handles JSON payloads decoded into Python values and instances of the
  model classes of \<^verbatim>\<open>models/models.py\<close>. One datatype holds both, as the source's
  \<^verbatim>\<open>Any\<close> does: a decoded JSON document is a value without \<open>PModel\<close>. A dictionary
  is an association list read by \<open>map_of\<close>; an instance carries its class and the
  values of its fields, in declaration order.
\<close>

datatype cls = Artist | Album | Track | Playlist | ExternalUrls | ExternalIds
  | Followers | SpotifyImage | AudioFeatures | SearchResponse | PaginatedResponse

datatype pyval = PNone | PBool bool | PInt int | PFloat real | PStr string
  | PList "pyval list" | PDict "(string \<times> pyval) list"
  | PModel cls "(string \<times> pyval) list"

text \<open>
  Exceptions are values. The text of a message that the source builds from
  \<^verbatim>\<open>str(e)\<close> is not modelled: such an exception keeps its class and, for an
  \<^verbatim>\<open>HTTPException\<close>, its status code.
\<close>

datatype error = KeyError string | TypeError | AttributeError | ValidationError
  | ValueError string | HTTPException nat | Exception

definition ebind :: "error + 'a \<Rightarrow> ('a \<Rightarrow> error + 'b) \<Rightarrow> error + 'b" where
  "ebind m f = (case m of Inl e \<Rightarrow> Inl e | Inr x \<Rightarrow> f x)"

text \<open>A list comprehension whose element expression may raise: the first raise ends it.\<close>

fun emap :: "('a \<Rightarrow> error + 'b) \<Rightarrow> 'a list \<Rightarrow> error + 'b list" where
  "emap f [] = Inr []"
| "emap f (x # xs) = ebind (f x) (\<lambda>y. ebind (emap f xs) (\<lambda>ys. Inr (y # ys)))"

text \<open>\<^verbatim>\<open>obj[key]\<close> with a string key: only a dictionary can be subscripted by it.\<close>

definition py_getitem :: "pyval \<Rightarrow> string \<Rightarrow> error + pyval" where
  "py_getitem obj key =
     (case obj of
        PDict kvs \<Rightarrow> (case map_of kvs key of Some v \<Rightarrow> Inr v | None \<Rightarrow> Inl (KeyError key))
      | _ \<Rightarrow> Inl TypeError)"

text \<open>\<^verbatim>\<open>obj.get(key, default)\<close>; \<^verbatim>\<open>obj.get(key)\<close> is the call with default \<^verbatim>\<open>None\<close>.\<close>

definition py_get_default :: "pyval \<Rightarrow> string \<Rightarrow> pyval \<Rightarrow> error + pyval" where
  "py_get_default obj key dflt =
     (case obj of
        PDict kvs \<Rightarrow> (case map_of kvs key of Some v \<Rightarrow> Inr v | None \<Rightarrow> Inr dflt)
      | _ \<Rightarrow> Inl AttributeError)"

definition py_get :: "pyval \<Rightarrow> string \<Rightarrow> error + pyval" where
  "py_get obj key = py_get_default obj key PNone"

text \<open>Truth value of an object in a condition.\<close>

fun py_truthy :: "pyval \<Rightarrow> bool" where
  "py_truthy PNone = False"
| "py_truthy (PBool b) = b"
| "py_truthy (PInt n) = (n \<noteq> 0)"
| "py_truthy (PFloat x) = (x \<noteq> 0)"
| "py_truthy (PStr s) = (s \<noteq> [])"
| "py_truthy (PList xs) = (xs \<noteq> [])"
| "py_truthy (PDict kvs) = (kvs \<noteq> [])"
| "py_truthy (PModel c fs) = True"

text \<open>
  The elements a \<^verbatim>\<open>for\<close> loop visits: those of a list, the keys of a dictionary, the
  characters of a string, the (name, value) pairs of a model instance. Anything else is
  not iterable.
\<close>

fun py_iter :: "pyval \<Rightarrow> error + pyval list" where
  "py_iter (PList xs) = Inr xs"
| "py_iter (PDict kvs) = Inr (map (\<lambda>kv. PStr (fst kv)) kvs)"
| "py_iter (PStr s) = Inr (map (\<lambda>c. PStr [c]) s)"
| "py_iter (PModel c fs) = Inr (map (\<lambda>kv. PList [PStr (fst kv), snd kv]) fs)"
| "py_iter _ = Inl TypeError"

text \<open>\<^verbatim>\<open>d.update(e)\<close>: a key already there keeps its place, a new key is appended.\<close>

definition dict_update ::
  "(string \<times> pyval) list \<Rightarrow> (string \<times> pyval) list \<Rightarrow> (string \<times> pyval) list" where
  "dict_update d e = fold (\<lambda>kv. AList.update (fst kv) (snd kv)) e d"

text \<open>
  The dictionary display \<^verbatim>\<open>{k: data.get(k), ...}\<close> over the listed keys, evaluated
  left to right.
\<close>

definition gets :: "pyval \<Rightarrow> string list \<Rightarrow> error + (string \<times> pyval) list" where
  "gets data keys = emap (\<lambda>k. ebind (py_get data k) (\<lambda>v. Inr (k, v))) keys"

section \<open>Format policy: \<^verbatim>\<open>CaseInsensitiveStrEnum\<close> and \<^verbatim>\<open>DataFormat\<close>\<close>

datatype DataFormat = MINIMAL | COMPACT | FULL | RAW

fun DataFormat_value :: "DataFormat \<Rightarrow> string" where
  "DataFormat_value MINIMAL = ''minimal''"
| "DataFormat_value COMPACT = ''compact''"
| "DataFormat_value FULL = ''full''"
| "DataFormat_value RAW = ''raw''"

definition DataFormat_members :: "DataFormat list" where
  "DataFormat_members = [MINIMAL, COMPACT, FULL, RAW]"

datatype SpotifyObjectType = TRACK | ARTIST | ALBUM | PLAYLIST | SHOW | EPISODE | USER

fun SpotifyObjectType_value :: "SpotifyObjectType \<Rightarrow> string" where
  "SpotifyObjectType_value TRACK = ''track''"
| "SpotifyObjectType_value ARTIST = ''artist''"
| "SpotifyObjectType_value ALBUM = ''album''"
| "SpotifyObjectType_value PLAYLIST = ''playlist''"
| "SpotifyObjectType_value SHOW = ''show''"
| "SpotifyObjectType_value EPISODE = ''episode''"
| "SpotifyObjectType_value USER = ''user''"

text \<open>
  \<^verbatim>\<open>str.lower\<close>. A \<open>string\<close> is a list of bytes: the letters A to Z are mapped to
  a to z and every other byte is kept.
\<close>

definition lower_char :: "char \<Rightarrow> char" where
  "lower_char c =
     (let n = (of_char c :: nat) in if 65 \<le> n \<and> n \<le> 90 then char_of (n + 32) else c)"

definition lower :: "string \<Rightarrow> string" where
  "lower s = map lower_char s"

text \<open>
  \<^verbatim>\<open>_missing_\<close>: the first member, in declaration order, whose lowered value equals the
  lowered argument, or \<^verbatim>\<open>None\<close>.
\<close>

definition DataFormat_missing :: "string \<Rightarrow> DataFormat option" where
  "DataFormat_missing v =
     find (\<lambda>member. lower (DataFormat_value member) = lower v) DataFormat_members"

text \<open>
  The call \<^verbatim>\<open>DataFormat(value)\<close>: the enum machinery looks the value up among the
  members' values, asks \<^verbatim>\<open>_missing_\<close> when there is none, and raises
  \<^verbatim>\<open>ValueError\<close> when that returns \<^verbatim>\<open>None\<close>.
\<close>

definition DataFormat_call :: "string \<Rightarrow> error + DataFormat" where
  "DataFormat_call v =
     (case find (\<lambda>member. DataFormat_value member = v) DataFormat_members of
        Some member \<Rightarrow> Inr member
      | None \<Rightarrow>
          (case DataFormat_missing v of
             Some member \<Rightarrow> Inr member
           | None \<Rightarrow> Inl (ValueError (v @ '' is not a valid DataFormat''))))"

text \<open>The tools resolve their \<^verbatim>\<open>format\<close> argument by \<^verbatim>\<open>DataFormat(format.lower())\<close>.\<close>

definition resolve_format :: "string \<Rightarrow> error + DataFormat" where
  "resolve_format format = DataFormat_call (lower format)"

section \<open>Domain object schemas\<close>

text \<open>
  The classes of \<^verbatim>\<open>models.py\<close> are declarations read by the validation library. A
  field is its name, the validator of its annotated type and its default. What the
  library does with a value that already has the annotated type is fixed here: it is
  kept. What it does with a value of another type (its coercion table) is a parameter
  of the model, \<open>coercions\<close>, so every result below holds whatever that table is. The
  record also carries the two operations of floating-point arithmetic that the service
  can reach (adding two floats, converting an integer), which are left open as well.
\<close>

record coercions =
  coerce_str :: "pyval \<Rightarrow> string option"
  coerce_int :: "pyval \<Rightarrow> int option"
  coerce_bool :: "pyval \<Rightarrow> bool option"
  coerce_float :: "pyval \<Rightarrow> real option"
  float_add :: "real \<Rightarrow> real \<Rightarrow> real"
  float_of_int :: "int \<Rightarrow> real"

type_synonym validator = "pyval \<Rightarrow> pyval option"

definition v_str :: "coercions \<Rightarrow> validator" where
  "v_str C v = (case v of PStr s \<Rightarrow> Some (PStr s) | _ \<Rightarrow> map_option PStr (coerce_str C v))"

definition v_int :: "coercions \<Rightarrow> validator" where
  "v_int C v = (case v of PInt n \<Rightarrow> Some (PInt n) | _ \<Rightarrow> map_option PInt (coerce_int C v))"

definition v_bool :: "coercions \<Rightarrow> validator" where
  "v_bool C v = (case v of PBool b \<Rightarrow> Some (PBool b) | _ \<Rightarrow> map_option PBool (coerce_bool C v))"

definition v_float :: "coercions \<Rightarrow> validator" where
  "v_float C v =
     (case v of PFloat x \<Rightarrow> Some (PFloat x) | _ \<Rightarrow> map_option PFloat (coerce_float C v))"

text \<open>\<^verbatim>\<open>Optional[T]\<close>, \<^verbatim>\<open>List[T]\<close>, \<^verbatim>\<open>Dict[str, Any]\<close> and \<^verbatim>\<open>Any\<close>.\<close>

definition v_opt :: "validator \<Rightarrow> validator" where
  "v_opt vd v = (if v = PNone then Some PNone else vd v)"

definition v_list :: "validator \<Rightarrow> validator" where
  "v_list vd v =
     (case v of PList xs \<Rightarrow> map_option PList (those (map vd xs)) | _ \<Rightarrow> None)"

definition v_dict_any :: validator where
  "v_dict_any v = (case v of PDict kvs \<Rightarrow> Some (PDict kvs) | _ \<Rightarrow> None)"

definition v_any :: validator where
  "v_any v = Some v"

datatype fdefault = Required | Default pyval

type_synonym field = "string \<times> validator \<times> fdefault"

text \<open>
  Validation of the keyword arguments against the declared fields: a field that is
  passed is validated, one that is not takes its default, and a required one that is
  not passed is an error.
\<close>

definition validate_field :: "field \<Rightarrow> (string \<times> pyval) list \<Rightarrow> pyval option" where
  "validate_field f kwargs =
     (case map_of kwargs (fst f) of
        Some v \<Rightarrow> fst (snd f) v
      | None \<Rightarrow> (case snd (snd f) of Required \<Rightarrow> None | Default d \<Rightarrow> Some d))"

definition validate_fields ::
  "field list \<Rightarrow> (string \<times> pyval) list \<Rightarrow> (string \<times> pyval) list option" where
  "validate_fields flds kwargs =
     those (map (\<lambda>f. map_option (Pair (fst f)) (validate_field f kwargs)) flds)"

text \<open>
  \<^verbatim>\<open>Class(**kwargs)\<close>. With \<^verbatim>\<open>extra="allow"\<close> the arguments that are not declared fields
  are kept on the instance; otherwise they are ignored.
\<close>

definition model_init ::
  "cls \<Rightarrow> field list \<Rightarrow> bool \<Rightarrow> (string \<times> pyval) list \<Rightarrow> error + pyval" where
  "model_init c flds extra_allow kwargs =
     (case validate_fields flds kwargs of
        None \<Rightarrow> Inl ValidationError
      | Some vs \<Rightarrow>
          Inr (PModel c (vs @ (if extra_allow
                 then filter (\<lambda>kv. fst kv \<notin> set (map fst flds)) kwargs else []))))"

text \<open>
  A field annotated with a model class takes an instance of that class as it is and
  builds one from a dictionary.
\<close>

definition v_model :: "cls \<Rightarrow> ((string \<times> pyval) list \<Rightarrow> error + pyval) \<Rightarrow> validator" where
  "v_model c init v =
     (case v of
        PModel c' fs \<Rightarrow> (if c' = c then Some (PModel c' fs) else None)
      | PDict kwargs \<Rightarrow> (case init kwargs of Inr m \<Rightarrow> Some m | Inl e \<Rightarrow> None)
      | _ \<Rightarrow> None)"

definition SpotifyImage_fields :: "coercions \<Rightarrow> field list" where
  "SpotifyImage_fields C =
     [(''height'', v_opt (v_int C), Default PNone),
      (''width'', v_opt (v_int C), Default PNone),
      (''url'', v_str C, Required)]"

definition new_SpotifyImage :: "coercions \<Rightarrow> (string \<times> pyval) list \<Rightarrow> error + pyval" where
  "new_SpotifyImage C = model_init SpotifyImage (SpotifyImage_fields C) False"

definition ExternalUrls_fields :: "coercions \<Rightarrow> field list" where
  "ExternalUrls_fields C = [(''spotify'', v_opt (v_str C), Default PNone)]"

definition new_ExternalUrls :: "coercions \<Rightarrow> (string \<times> pyval) list \<Rightarrow> error + pyval" where
  "new_ExternalUrls C = model_init ExternalUrls (ExternalUrls_fields C) False"

definition ExternalIds_fields :: "coercions \<Rightarrow> field list" where
  "ExternalIds_fields C =
     [(''isrc'', v_opt (v_str C), Default PNone),
      (''ean'', v_opt (v_str C), Default PNone),
      (''upc'', v_opt (v_str C), Default PNone)]"

definition new_ExternalIds :: "coercions \<Rightarrow> (string \<times> pyval) list \<Rightarrow> error + pyval" where
  "new_ExternalIds C = model_init ExternalIds (ExternalIds_fields C) False"

definition Followers_fields :: "coercions \<Rightarrow> field list" where
  "Followers_fields C =
     [(''href'', v_opt (v_str C), Default PNone),
      (''total'', v_int C, Required)]"

definition new_Followers :: "coercions \<Rightarrow> (string \<times> pyval) list \<Rightarrow> error + pyval" where
  "new_Followers C = model_init Followers (Followers_fields C) False"

definition Artist_fields :: "coercions \<Rightarrow> field list" where
  "Artist_fields C =
     [(''id'', v_str C, Required),
      (''name'', v_str C, Required),
      (''type'', v_str C, Default (PStr ''artist'')),
      (''uri'', v_str C, Required),
      (''href'', v_str C, Required),
      (''external_urls'', v_opt (v_model ExternalUrls (new_ExternalUrls C)), Default PNone),
      (''images'', v_opt (v_list (v_model SpotifyImage (new_SpotifyImage C))), Default PNone),
      (''genres'', v_opt (v_list (v_str C)), Default PNone),
      (''popularity'', v_opt (v_int C), Default PNone),
      (''followers'', v_opt (v_model Followers (new_Followers C)), Default PNone)]"

definition new_Artist :: "coercions \<Rightarrow> (string \<times> pyval) list \<Rightarrow> error + pyval" where
  "new_Artist C = model_init Artist (Artist_fields C) True"

definition Album_fields :: "coercions \<Rightarrow> field list" where
  "Album_fields C =
     [(''id'', v_str C, Required),
      (''name'', v_str C, Required),
      (''type'', v_str C, Default (PStr ''album'')),
      (''uri'', v_str C, Required),
      (''href'', v_str C, Required),
      (''external_urls'', v_opt (v_model ExternalUrls (new_ExternalUrls C)), Default PNone),
      (''images'', v_opt (v_list (v_model SpotifyImage (new_SpotifyImage C))), Default PNone),
      (''artists'', v_list (v_model Artist (new_Artist C)), Required),
      (''album_type'', v_opt (v_str C), Default PNone),
      (''total_tracks'', v_opt (v_int C), Default PNone),
      (''release_date'', v_opt (v_str C), Default PNone),
      (''release_date_precision'', v_opt (v_str C), Default PNone),
      (''genres'', v_opt (v_list (v_str C)), Default PNone),
      (''popularity'', v_opt (v_int C), Default PNone),
      (''external_ids'', v_opt (v_model ExternalIds (new_ExternalIds C)), Default PNone)]"

definition new_Album :: "coercions \<Rightarrow> (string \<times> pyval) list \<Rightarrow> error + pyval" where
  "new_Album C = model_init Album (Album_fields C) True"

definition Track_fields :: "coercions \<Rightarrow> field list" where
  "Track_fields C =
     [(''id'', v_str C, Required),
      (''name'', v_str C, Required),
      (''type'', v_str C, Default (PStr ''track'')),
      (''uri'', v_str C, Required),
      (''href'', v_str C, Required),
      (''external_urls'', v_opt (v_model ExternalUrls (new_ExternalUrls C)), Default PNone),
      (''artists'', v_list (v_model Artist (new_Artist C)), Required),
      (''album'', v_opt (v_model Album (new_Album C)), Default PNone),
      (''duration_ms'', v_opt (v_int C), Default PNone),
      (''explicit'', v_opt (v_bool C), Default PNone),
      (''popularity'', v_opt (v_int C), Default PNone),
      (''preview_url'', v_opt (v_str C), Default PNone),
      (''track_number'', v_opt (v_int C), Default PNone),
      (''disc_number'', v_opt (v_int C), Default PNone),
      (''is_local'', v_opt (v_bool C), Default PNone),
      (''external_ids'', v_opt (v_model ExternalIds (new_ExternalIds C)), Default PNone)]"

definition new_Track :: "coercions \<Rightarrow> (string \<times> pyval) list \<Rightarrow> error + pyval" where
  "new_Track C = model_init Track (Track_fields C) True"

definition Playlist_fields :: "coercions \<Rightarrow> field list" where
  "Playlist_fields C =
     [(''id'', v_str C, Required),
      (''name'', v_str C, Required),
      (''type'', v_str C, Default (PStr ''playlist'')),
      (''uri'', v_str C, Required),
      (''href'', v_str C, Required),
      (''external_urls'', v_opt (v_model ExternalUrls (new_ExternalUrls C)), Default PNone),
      (''images'', v_opt (v_list (v_model SpotifyImage (new_SpotifyImage C))), Default PNone),
      (''description'', v_opt (v_str C), Default PNone),
      (''owner'', v_opt v_dict_any, Default PNone),
      (''public'', v_opt (v_bool C), Default PNone),
      (''collaborative'', v_opt (v_bool C), Default PNone),
      (''followers'', v_opt (v_model Followers (new_Followers C)), Default PNone),
      (''tracks'', v_opt v_dict_any, Default PNone),
      (''snapshot_id'', v_opt (v_str C), Default PNone)]"

definition new_Playlist :: "coercions \<Rightarrow> (string \<times> pyval) list \<Rightarrow> error + pyval" where
  "new_Playlist C = model_init Playlist (Playlist_fields C) True"

section \<open>Object normalizer\<close>

text \<open>
  Each builder of \<^verbatim>\<open>SpotifyService\<close> evaluates up to three dictionary displays: the
  base data, the update for \<open>COMPACT\<close> and \<open>FULL\<close>, and the update for \<open>FULL\<close>.
  Each display is a definition of its own here; an exception raised while one is
  evaluated leaves the builder.
\<close>

definition artist_base_data :: "pyval \<Rightarrow> error + (string \<times> pyval) list" where
  "artist_base_data artist_data =
     ebind (py_getitem artist_data ''id'') (\<lambda>id.
     ebind (py_getitem artist_data ''name'') (\<lambda>name.
     ebind (py_getitem artist_data ''uri'') (\<lambda>uri.
     ebind (py_getitem artist_data ''href'') (\<lambda>href.
     ebind (py_get artist_data ''external_urls'') (\<lambda>external_urls.
     Inr [(''id'', id), (''name'', name), (''uri'', uri), (''href'', href),
          (''external_urls'', external_urls)])))))"

definition parse_artist :: "coercions \<Rightarrow> pyval \<Rightarrow> DataFormat \<Rightarrow> error + pyval" where
  "parse_artist C artist_data format =
     ebind (artist_base_data artist_data) (\<lambda>base_data.
     ebind (if format \<in> {COMPACT, FULL}
            then gets artist_data [''images'', ''popularity'']
            else Inr []) (\<lambda>compact_data.
     ebind (if format = FULL
            then gets artist_data [''genres'', ''followers'']
            else Inr []) (\<lambda>full_data.
     new_Artist C (dict_update (dict_update base_data compact_data) full_data))))"

text \<open>
  The base data of an album and of a track have the same shape: the five entries of an
  artist's, then the nested artists, each built at \<open>MINIMAL\<close>.
\<close>

definition nested_artists :: "coercions \<Rightarrow> pyval \<Rightarrow> error + pyval list" where
  "nested_artists C data =
     ebind (py_get_default data ''artists'' (PList [])) (\<lambda>artists_data.
     ebind (py_iter artists_data) (\<lambda>artist_items.
     emap (\<lambda>artist. parse_artist C artist MINIMAL) artist_items))"

definition album_base_data :: "coercions \<Rightarrow> pyval \<Rightarrow> error + (string \<times> pyval) list" where
  "album_base_data C album_data =
     ebind (py_getitem album_data ''id'') (\<lambda>id.
     ebind (py_getitem album_data ''name'') (\<lambda>name.
     ebind (py_getitem album_data ''uri'') (\<lambda>uri.
     ebind (py_getitem album_data ''href'') (\<lambda>href.
     ebind (py_get album_data ''external_urls'') (\<lambda>external_urls.
     ebind (nested_artists C album_data) (\<lambda>artists.
     Inr [(''id'', id), (''name'', name), (''uri'', uri), (''href'', href),
          (''external_urls'', external_urls), (''artists'', PList artists)]))))))"

definition parse_album :: "coercions \<Rightarrow> pyval \<Rightarrow> DataFormat \<Rightarrow> error + pyval" where
  "parse_album C album_data format =
     ebind (album_base_data C album_data) (\<lambda>base_data.
     ebind (if format \<in> {COMPACT, FULL}
            then gets album_data
                   [''images'', ''album_type'', ''total_tracks'', ''release_date'']
            else Inr []) (\<lambda>compact_data.
     ebind (if format = FULL
            then gets album_data
                   [''release_date_precision'', ''genres'', ''popularity'', ''external_ids'']
            else Inr []) (\<lambda>full_data.
     new_Album C (dict_update (dict_update base_data compact_data) full_data))))"

definition track_base_data :: "coercions \<Rightarrow> pyval \<Rightarrow> error + (string \<times> pyval) list" where
  "track_base_data C track_data =
     ebind (py_getitem track_data ''id'') (\<lambda>id.
     ebind (py_getitem track_data ''name'') (\<lambda>name.
     ebind (py_getitem track_data ''uri'') (\<lambda>uri.
     ebind (py_getitem track_data ''href'') (\<lambda>href.
     ebind (py_get track_data ''external_urls'') (\<lambda>external_urls.
     ebind (nested_artists C track_data) (\<lambda>artists.
     Inr [(''id'', id), (''name'', name), (''uri'', uri), (''href'', href),
          (''external_urls'', external_urls), (''artists'', PList artists)]))))))"

text \<open>
  \<^verbatim>\<open>self._parse_album(track_data["album"], DataFormat.MINIMAL) if track_data.get("album")
  else None\<close>
\<close>

definition nested_album :: "coercions \<Rightarrow> pyval \<Rightarrow> error + pyval" where
  "nested_album C track_data =
     ebind (py_get track_data ''album'') (\<lambda>present.
     if py_truthy present
     then ebind (py_getitem track_data ''album'') (\<lambda>album_data.
            parse_album C album_data MINIMAL)
     else Inr PNone)"

definition track_compact_data :: "coercions \<Rightarrow> pyval \<Rightarrow> error + (string \<times> pyval) list" where
  "track_compact_data C track_data =
     ebind (nested_album C track_data) (\<lambda>album.
     ebind (gets track_data [''duration_ms'', ''explicit'', ''popularity'', ''preview_url''])
       (\<lambda>rest. Inr ((''album'', album) # rest)))"

definition parse_track :: "coercions \<Rightarrow> pyval \<Rightarrow> DataFormat \<Rightarrow> error + pyval" where
  "parse_track C track_data format =
     ebind (track_base_data C track_data) (\<lambda>base_data.
     ebind (if format \<in> {COMPACT, FULL}
            then track_compact_data C track_data
            else Inr []) (\<lambda>compact_data.
     ebind (if format = FULL
            then gets track_data
                   [''track_number'', ''disc_number'', ''is_local'', ''external_ids'']
            else Inr []) (\<lambda>full_data.
     new_Track C (dict_update (dict_update base_data compact_data) full_data))))"

definition playlist_base_data :: "pyval \<Rightarrow> error + (string \<times> pyval) list" where
  "playlist_base_data playlist_data =
     ebind (py_getitem playlist_data ''id'') (\<lambda>id.
     ebind (py_getitem playlist_data ''name'') (\<lambda>name.
     ebind (py_getitem playlist_data ''uri'') (\<lambda>uri.
     ebind (py_getitem playlist_data ''href'') (\<lambda>href.
     ebind (py_get playlist_data ''external_urls'') (\<lambda>external_urls.
     Inr [(''id'', id), (''name'', name), (''uri'', uri), (''href'', href),
          (''external_urls'', external_urls)])))))"

definition parse_playlist :: "coercions \<Rightarrow> pyval \<Rightarrow> DataFormat \<Rightarrow> error + pyval" where
  "parse_playlist C playlist_data format =
     ebind (playlist_base_data playlist_data) (\<lambda>base_data.
     ebind (if format \<in> {COMPACT, FULL}
            then gets playlist_data
                   [''images'', ''description'', ''owner'', ''public'', ''collaborative'',
                    ''tracks'']
            else Inr []) (\<lambda>compact_data.
     ebind (if format = FULL
            then gets playlist_data [''followers'', ''snapshot_id'']
            else Inr []) (\<lambda>full_data.
     new_Playlist C (dict_update (dict_update base_data compact_data) full_data))))"

text \<open>
  \<^verbatim>\<open>_parse_object\<close>: \<open>parse_dispatch\<close> is the body of its \<^verbatim>\<open>try\<close>, and the
  \<^verbatim>\<open>except Exception\<close> clause returns the object it was given.
\<close>

definition parse_dispatch ::
  "coercions \<Rightarrow> pyval \<Rightarrow> SpotifyObjectType \<Rightarrow> DataFormat \<Rightarrow> error + pyval" where
  "parse_dispatch C obj obj_type format =
     (if format = RAW then Inr obj
      else if obj_type = TRACK then parse_track C obj format
      else if obj_type = ARTIST then parse_artist C obj format
      else if obj_type = ALBUM then parse_album C obj format
      else if obj_type = PLAYLIST then parse_playlist C obj format
      else Inr obj)"

definition parse_object ::
  "coercions \<Rightarrow> pyval \<Rightarrow> SpotifyObjectType \<Rightarrow> DataFormat \<Rightarrow> pyval" where
  "parse_object C obj obj_type format =
     (case parse_dispatch C obj obj_type format of Inr parsed \<Rightarrow> parsed | Inl e \<Rightarrow> obj)"

section \<open>Notions used by the properties\<close>

text \<open>
  The fields of a normalized object that are populated: those whose value is not
  \<^verbatim>\<open>None\<close>. For a raw dictionary these are its keys with a value other than null.
\<close>

definition populated :: "(string \<times> pyval) list \<Rightarrow> string set" where
  "populated fs = set (map fst (filter (\<lambda>kv. snd kv \<noteq> PNone) fs))"

fun fields_populated :: "pyval \<Rightarrow> string set" where
  "fields_populated (PModel c fs) = populated fs"
| "fields_populated (PDict kvs) = populated kvs"
| "fields_populated _ = {}"


text \<open>\<^verbatim>\<open>d.get(key)\<close> on the entries of a dictionary.\<close>

definition dget :: "(string \<times> pyval) list \<Rightarrow> string \<Rightarrow> pyval" where
  "dget kvs key = (case map_of kvs key of Some v \<Rightarrow> v | None \<Rightarrow> PNone)"

text \<open>The shape shared by the four builders, used to reason about them together.\<close>

definition tiered ::
  "((string \<times> pyval) list \<Rightarrow> error + pyval) \<Rightarrow> error + (string \<times> pyval) list \<Rightarrow>
   error + (string \<times> pyval) list \<Rightarrow> error + (string \<times> pyval) list \<Rightarrow> DataFormat \<Rightarrow>
   error + pyval" where
  "tiered init base cdata fdata format =
     ebind base (\<lambda>base_data.
     ebind (if format \<in> {COMPACT, FULL} then cdata else Inr []) (\<lambda>compact_data.
     ebind (if format = FULL then fdata else Inr []) (\<lambda>full_data.
     init (dict_update (dict_update base_data compact_data) full_data))))"

text \<open>
  Concrete inputs for the closed statements: the coercion table that accepts no value of
  another type (with exact arithmetic for the two float operations), and some raw
  catalog objects.
\<close>

definition no_coercions :: coercions where
  "no_coercions =
     \<lparr>coerce_str = (\<lambda>v. None), coerce_int = (\<lambda>v. None), coerce_bool = (\<lambda>v. None),
      coerce_float = (\<lambda>v. None), float_add = (\<lambda>x y. x + y), float_of_int = of_int\<rparr>"

definition example_artist_entries :: "(string \<times> pyval) list" where
  "example_artist_entries =
     [(''id'', PStr ''ar1''), (''name'', PStr ''Some Artist''),
      (''uri'', PStr ''spotify:artist:ar1''), (''href'', PStr ''https://api/artists/ar1''),
      (''genres'', PList [PStr ''rock'']), (''popularity'', PInt 50)]"

definition example_artist :: pyval where
  "example_artist = PDict example_artist_entries"

definition example_album :: pyval where
  "example_album =
     PDict [(''id'', PStr ''al1''), (''name'', PStr ''Some Album''),
            (''uri'', PStr ''spotify:album:al1''), (''href'', PStr ''https://api/albums/al1''),
            (''artists'', PList [example_artist]), (''album_type'', PStr ''album'')]"

definition example_track_entries :: "(string \<times> pyval) list" where
  "example_track_entries =
     [(''id'', PStr ''t1''), (''name'', PStr ''Some Track''),
      (''uri'', PStr ''spotify:track:t1''), (''href'', PStr ''https://api/tracks/t1''),
      (''artists'', PList [example_artist]), (''album'', example_album),
      (''duration_ms'', PInt 1000), (''popularity'', PInt 7)]"



text \<open>
  Setting the field \<open>k\<close> of an instance to \<^verbatim>\<open>None\<close>, and the keys that the builder of
  each type reads with \<^verbatim>\<open>get\<close> into a field declared \<^verbatim>\<open>Optional\<close> with default
  \<^verbatim>\<open>None\<close>.
\<close>

definition set_none :: "string \<Rightarrow> (string \<times> pyval) list \<Rightarrow> (string \<times> pyval) list" where
  "set_none k fs = map (\<lambda>kv. if fst kv = k then (k, PNone) else kv) fs"

fun optional_keys :: "SpotifyObjectType \<Rightarrow> string list" where
  "optional_keys TRACK =
     [''external_urls'', ''album'', ''duration_ms'', ''explicit'', ''popularity'',
      ''preview_url'', ''track_number'', ''disc_number'', ''is_local'', ''external_ids'']"
| "optional_keys ARTIST =
     [''external_urls'', ''images'', ''genres'', ''popularity'', ''followers'']"
| "optional_keys ALBUM =
     [''external_urls'', ''images'', ''album_type'', ''total_tracks'', ''release_date'',
      ''release_date_precision'', ''genres'', ''popularity'', ''external_ids'']"
| "optional_keys PLAYLIST =
     [''external_urls'', ''images'', ''description'', ''owner'', ''public'',
      ''collaborative'', ''followers'', ''tracks'', ''snapshot_id'']"
| "optional_keys _ = []"

definition default_none_fields :: "field list \<Rightarrow> string list" where
  "default_none_fields flds = map fst (filter (\<lambda>f. snd (snd f) = Default PNone) flds)"

text \<open>
  How deep normalized catalog objects (tracks, artists, albums, playlists) are nested in
  a value: an artist alone has depth 1. The levels of nesting below the outermost object
  are one less.
\<close>

fun domain_depth :: "pyval \<Rightarrow> nat" where
  "domain_depth (PModel c fs) =
     (if c \<in> {Artist, Album, Track, Playlist} then 1 else 0)
       + foldr max (map (\<lambda>kv. domain_depth (snd kv)) fs) 0"
| "domain_depth (PList xs) = foldr max (map domain_depth xs) 0"
| "domain_depth (PDict kvs) = foldr max (map (\<lambda>kv. domain_depth (snd kv)) kvs) 0"
| "domain_depth _ = 0"


text \<open>
  Setting the field \<open>k\<close> of an instance to a value, the fields a schema declares
  required, and a raw track that has no \<open>artists\<close> key.
\<close>

definition set_val :: "string \<Rightarrow> pyval \<Rightarrow> (string \<times> pyval) list \<Rightarrow> (string \<times> pyval) list" where
  "set_val k w fs = map (\<lambda>kv. if fst kv = k then (k, w) else kv) fs"

definition required_fields :: "field list \<Rightarrow> string list" where
  "required_fields flds = map fst (filter (\<lambda>f. snd (snd f) = Required) flds)"

definition track_without_artists_entries :: "(string \<times> pyval) list" where
  "track_without_artists_entries =
     [(''id'', PStr ''t3''), (''name'', PStr ''Third Track''),
      (''uri'', PStr ''spotify:track:t3''), (''href'', PStr ''https://api/tracks/t3''),
      (''duration_ms'', PInt 1000)]"

text \<open>
  The values that a decoded JSON document can hold: they contain no model instance. The
  raw objects handed to the normalizer come from the decoded responses of the Web API.
\<close>

fun is_json :: "pyval \<Rightarrow> bool" where
  "is_json (PModel c fs) = False"
| "is_json (PList xs) = list_all is_json xs"
| "is_json (PDict kvs) = list_all (\<lambda>kv. is_json (snd kv)) kvs"
| "is_json v = True"

text \<open>
  A validator is flat when, from a JSON value, it produces no catalog object: this holds
  of every field validator of the schemas except those of \<open>artists\<close> and \<open>album\<close>.
\<close>

definition flat :: "validator \<Rightarrow> bool" where
  "flat vd = (\<forall>v v'. is_json v \<longrightarrow> vd v = Some v' \<longrightarrow> domain_depth v' = 0)"

section \<open>Properties of the format policy\<close>

lemma lower_char_idem: "lower_char (lower_char c) = lower_char c"
proof -
  have "of_char (char_of (of_char c + (32::nat))) = (of_char c + 32 :: nat)"
    if "65 \<le> (of_char c :: nat)" "(of_char c :: nat) \<le> 90"
    using that by simp
  then show ?thesis
    by (auto simp: lower_char_def Let_def)
qed

lemma lower_idem: "lower (lower s) = lower s"
  by (simp add: lower_def lower_char_idem)

lemma lower_names:
  "lower ''minimal'' = ''minimal''" "lower ''compact'' = ''compact''"
  "lower ''full'' = ''full''" "lower ''raw'' = ''raw''"
  by (simp_all add: lower_def lower_char_def)

lemma DataFormat_call_eq:
  "DataFormat_call v =
     (if lower v = ''minimal'' then Inr MINIMAL
      else if lower v = ''compact'' then Inr COMPACT
      else if lower v = ''full'' then Inr FULL
      else if lower v = ''raw'' then Inr RAW
      else Inl (ValueError (v @ '' is not a valid DataFormat'')))"
proof -
  have exact: "lower v = v" if "v \<in> {''minimal'', ''compact'', ''full'', ''raw''}"
    using that lower_names by auto
  show ?thesis
    using exact lower_names
    by (auto simp: DataFormat_call_def DataFormat_missing_def DataFormat_members_def)
qed

text \<open>
  Claim C5. Format resolution is case-insensitive and total over the four tier names
  only. A string whose lowercase form is \<open>minimal\<close>, \<open>compact\<close>, \<open>full\<close> or \<open>raw\<close>
  resolves to that tier, both through the tools' \<^verbatim>\<open>DataFormat(format.lower())\<close> and
  through \<^verbatim>\<open>DataFormat(format)\<close> itself; every other string raises \<^verbatim>\<open>ValueError\<close>,
  and no tier is returned by default.
\<close>

theorem format_resolution_case_insensitive:
  "(lower s = ''minimal'' \<longrightarrow> resolve_format s = Inr MINIMAL \<and> DataFormat_call s = Inr MINIMAL) \<and>
   (lower s = ''compact'' \<longrightarrow> resolve_format s = Inr COMPACT \<and> DataFormat_call s = Inr COMPACT) \<and>
   (lower s = ''full'' \<longrightarrow> resolve_format s = Inr FULL \<and> DataFormat_call s = Inr FULL) \<and>
   (lower s = ''raw'' \<longrightarrow> resolve_format s = Inr RAW \<and> DataFormat_call s = Inr RAW) \<and>
   (lower s \<notin> {''minimal'', ''compact'', ''full'', ''raw''} \<longrightarrow>
      (\<exists>msg. resolve_format s = Inl (ValueError msg)) \<and>
      (\<exists>msg. DataFormat_call s = Inl (ValueError msg)))"
  by (simp add: resolve_format_def DataFormat_call_eq lower_idem lower_names)

theorem format_resolution_witness:
  "resolve_format ''Compact'' = Inr COMPACT \<and> resolve_format ''COMPACT'' = Inr COMPACT \<and>
   resolve_format ''compact'' = Inr COMPACT \<and> resolve_format ''RaW'' = Inr RAW \<and>
   DataFormat_call ''Minimal'' = Inr MINIMAL \<and> DataFormat_call ''FULL'' = Inr FULL \<and>
   (\<exists>msg. resolve_format ''bogus'' = Inl (ValueError msg)) \<and>
   (\<exists>msg. DataFormat_call '''' = Inl (ValueError msg))"
proof -
  have low: "lower ''Compact'' = ''compact''" "lower ''COMPACT'' = ''compact''"
    "lower ''compact'' = ''compact''" "lower ''RaW'' = ''raw''"
    "lower ''Minimal'' = ''minimal''" "lower ''FULL'' = ''full''"
    "lower ''bogus'' = ''bogus''" "lower '''' = ''''"
    by code_simp+
  show ?thesis
    using format_resolution_case_insensitive [of "''Compact''"]
      format_resolution_case_insensitive [of "''COMPACT''"]
      format_resolution_case_insensitive [of "''compact''"]
      format_resolution_case_insensitive [of "''RaW''"]
      format_resolution_case_insensitive [of "''Minimal''"]
      format_resolution_case_insensitive [of "''FULL''"]
      format_resolution_case_insensitive [of "''bogus''"]
      format_resolution_case_insensitive [of "''''"]
    by (simp add: low)
qed

section \<open>Properties of the object normalizer\<close>

lemma ebind_Inl [simp]: "ebind (Inl e) f = Inl e"
  and ebind_Inr [simp]: "ebind (Inr x) f = f x"
  by (simp_all add: ebind_def)

lemma ebind_eq_Inr: "ebind m f = Inr y \<longleftrightarrow> (\<exists>x. m = Inr x \<and> f x = Inr y)"
  by (cases m) simp_all

lemma py_getitem_PDict:
  "py_getitem (PDict kvs) k = (case map_of kvs k of Some v \<Rightarrow> Inr v | None \<Rightarrow> Inl (KeyError k))"
  by (simp add: py_getitem_def)


lemma py_get_PDict: "py_get (PDict kvs) k = Inr (dget kvs k)"
  by (simp add: py_get_def py_get_default_def dget_def split: option.splits)

lemma gets_PDict: "gets (PDict kvs) keys = Inr (map (\<lambda>k. (k, dget kvs k)) keys)"
  by (induction keys) (simp_all add: gets_def py_get_PDict)

lemma gets_keys: "gets d keys = Inr c \<Longrightarrow> map fst c = keys"
proof (induction keys arbitrary: c)
  case Nil
  then show ?case by (simp add: gets_def)
next
  case (Cons k ks)
  then show ?case
    by (auto simp: gets_def ebind_eq_Inr)
qed

lemma validate_fields_Nil [simp]: "validate_fields [] kw = Some []"
  by (simp add: validate_fields_def)

lemma validate_fields_Cons:
  "validate_fields (f # fs) kw =
     (case validate_field f kw of None \<Rightarrow> None
      | Some v \<Rightarrow> map_option ((#) (fst f, v)) (validate_fields fs kw))"
  by (simp add: validate_fields_def split: option.splits)


lemma populated_Nil [simp]: "populated [] = {}"
  by (simp add: populated_def)








lemma dict_update_Nil [simp]: "dict_update d [] = d"
  by (simp add: dict_update_def)



lemma parse_artist_tiered:
  "parse_artist C d f =
     tiered (new_Artist C) (artist_base_data d) (gets d [''images'', ''popularity''])
       (gets d [''genres'', ''followers'']) f"
  by (simp add: parse_artist_def tiered_def)

lemma parse_album_tiered:
  "parse_album C d f =
     tiered (new_Album C) (album_base_data C d)
       (gets d [''images'', ''album_type'', ''total_tracks'', ''release_date''])
       (gets d [''release_date_precision'', ''genres'', ''popularity'', ''external_ids'']) f"
  by (simp add: parse_album_def tiered_def)

lemma parse_track_tiered:
  "parse_track C d f =
     tiered (new_Track C) (track_base_data C d) (track_compact_data C d)
       (gets d [''track_number'', ''disc_number'', ''is_local'', ''external_ids'']) f"
  by (simp add: parse_track_def tiered_def)

lemma parse_playlist_tiered:
  "parse_playlist C d f =
     tiered (new_Playlist C) (playlist_base_data d)
       (gets d [''images'', ''description'', ''owner'', ''public'', ''collaborative'',
                ''tracks''])
       (gets d [''followers'', ''snapshot_id'']) f"
  by (simp add: parse_playlist_def tiered_def)

lemma artist_base_data_keys:
  "artist_base_data d = Inr b \<Longrightarrow> map fst b = [''id'', ''name'', ''uri'', ''href'', ''external_urls'']"
  by (auto simp: artist_base_data_def ebind_eq_Inr)




lemma track_compact_data_keys:
  "track_compact_data C d = Inr c \<Longrightarrow>
   map fst c = [''album'', ''duration_ms'', ''explicit'', ''popularity'', ''preview_url'']"
  by (auto simp: track_compact_data_def ebind_eq_Inr dest: gets_keys)







text \<open>
  Claim C1. With format \<open>RAW\<close> the normalizer returns the object it was given, for
  every object (a well-formed catalog entry or not) and every object type.
\<close>

theorem parse_object_raw_identity:
  "parse_object C raw obj_type RAW = raw"
  by (simp add: parse_object_def parse_dispatch_def)





lemma optional_keys_schema:
  "optional_keys TRACK = default_none_fields (Track_fields C)"
  "optional_keys ARTIST = default_none_fields (Artist_fields C)"
  "optional_keys ALBUM = default_none_fields (Album_fields C)"
  "optional_keys PLAYLIST = default_none_fields (Playlist_fields C)"
  by (simp_all add: default_none_fields_def Track_fields_def Artist_fields_def Album_fields_def
      Playlist_fields_def)

lemma set_none_keys [simp]: "map fst (set_none k fs) = map fst fs"
  by (induction fs) (auto simp: set_none_def)

lemma set_none_append [simp]: "set_none k (xs @ ys) = set_none k xs @ set_none k ys"
  by (simp add: set_none_def)

lemma map_of_set_none:
  "map_of (set_none k kw) k' =
     (if k' = k then (if k \<in> fst ` set kw then Some PNone else None) else map_of kw k')"
  by (induction kw) (force simp: set_none_def)+

lemma set_none_filter:
  "filter (\<lambda>kv. fst kv \<notin> D) (set_none k kw) = set_none k (filter (\<lambda>kv. fst kv \<notin> D) kw)"
  by (induction kw) (auto simp: set_none_def)

lemma set_none_update:
  "set_none k (AList.update k' v d) = AList.update k' (if k' = k then PNone else v) (set_none k d)"
  by (induction d) (auto simp: set_none_def)

lemma dict_update_set_none:
  "dict_update (set_none k d) (set_none k e) = set_none k (dict_update d e)"
proof (induction e arbitrary: d)
  case Nil
  then show ?case by (simp add: set_none_def)
next
  case (Cons kv e)
  have "dict_update (set_none k d) (set_none k (kv # e)) =
        dict_update (AList.update (fst kv) (if fst kv = k then PNone else snd kv) (set_none k d))
          (set_none k e)"
    by (simp add: dict_update_def set_none_def)
  also have "\<dots> = dict_update (set_none k (AList.update (fst kv) (snd kv) d)) (set_none k e)"
    by (simp add: set_none_update)
  also have "\<dots> = set_none k (dict_update (AList.update (fst kv) (snd kv) d) e)"
    by (rule Cons.IH)
  finally show ?case by (simp add: dict_update_def)
qed

lemma validate_fields_set_none:
  assumes "validate_fields flds kw = Some vs"
    and "\<forall>f \<in> set flds. fst f = k \<longrightarrow> fst (snd f) PNone = Some PNone \<and> snd (snd f) = Default PNone"
  shows "validate_fields flds (set_none k kw) = Some (set_none k vs)"
  using assms
proof (induction flds arbitrary: vs)
  case Nil
  then show ?case by (simp add: set_none_def)
next
  case (Cons f fs)
  from Cons.prems(1) obtain v rest where
    v: "validate_field f kw = Some v" and
    rest: "validate_fields fs kw = Some rest" and
    vs: "vs = (fst f, v) # rest"
    by (auto simp: validate_fields_Cons split: option.splits)
  have rest': "validate_fields fs (set_none k kw) = Some (set_none k rest)"
    using Cons.IH [OF rest] Cons.prems(2) by simp
  have "validate_field f (set_none k kw) = Some (if fst f = k then PNone else v)"
    using v Cons.prems(2) by (auto simp: validate_field_def map_of_set_none)
  then show ?case
    using rest' vs by (auto simp: validate_fields_Cons set_none_def)
qed

lemma model_init_set_none:
  assumes "model_init c flds ea kw = Inr (PModel c' fs)"
    and "\<forall>f \<in> set flds. fst f = k \<longrightarrow> fst (snd f) PNone = Some PNone \<and> snd (snd f) = Default PNone"
  shows "model_init c flds ea (set_none k kw) = Inr (PModel c' (set_none k fs))"
proof -
  from assms(1) obtain vs where vs: "validate_fields flds kw = Some vs"
    by (auto simp: model_init_def split: option.splits)
  from validate_fields_set_none [OF vs assms(2)] assms(1) vs show ?thesis
    by (auto simp: model_init_def set_none_filter)
qed

lemma model_init_PModel: "model_init c flds ea kw = Inr r \<Longrightarrow> \<exists>fs. r = PModel c fs"
  by (auto simp: model_init_def split: option.splits)

lemma tiered_set_none:
  assumes run: "tiered (model_init cl flds ea) base cdata fdata f = Inr (PModel c fs)"
    and b: "\<And>b. base = Inr b \<Longrightarrow> base' = Inr (set_none k b)"
    and c: "\<And>c. cdata = Inr c \<Longrightarrow> cdata' = Inr (set_none k c)"
    and fu: "\<And>fu. fdata = Inr fu \<Longrightarrow> fdata' = Inr (set_none k fu)"
    and opt: "\<forall>f \<in> set flds. fst f = k \<longrightarrow>
                fst (snd f) PNone = Some PNone \<and> snd (snd f) = Default PNone"
  shows "tiered (model_init cl flds ea) base' cdata' fdata' f = Inr (PModel c (set_none k fs))"
proof -
  from run obtain bd cd fd where
    bd: "base = Inr bd" and
    cd: "(if f \<in> {COMPACT, FULL} then cdata else Inr []) = Inr cd" and
    fd: "(if f = FULL then fdata else Inr []) = Inr fd" and
    init: "model_init cl flds ea (dict_update (dict_update bd cd) fd) = Inr (PModel c fs)"
    by (auto simp: tiered_def ebind_eq_Inr)
  have cd': "(if f \<in> {COMPACT, FULL} then cdata' else Inr []) = Inr (set_none k cd)"
    using cd c by (auto simp: set_none_def split: if_splits)
  have fd': "(if f = FULL then fdata' else Inr []) = Inr (set_none k fd)"
    using fd fu by (auto simp: set_none_def split: if_splits)
  show ?thesis
    unfolding tiered_def
    using b [OF bd] cd' fd' model_init_set_none [OF init opt]
    by (simp add: dict_update_set_none)
qed

lemma dget_delete: "dget (AList.delete k kvs) k' = (if k' = k then PNone else dget kvs k')"
  by (simp add: dget_def delete_conv')

lemma gets_delete:
  "gets (PDict kvs) keys = Inr c \<Longrightarrow> gets (PDict (AList.delete k kvs)) keys = Inr (set_none k c)"
  by (auto simp: gets_PDict dget_delete set_none_def)

lemma py_getitem_delete:
  "k' \<noteq> k \<Longrightarrow> py_getitem (PDict (AList.delete k kvs)) k' = py_getitem (PDict kvs) k'"
  by (simp add: py_getitem_def delete_conv')

lemma py_get_default_delete:
  "k' \<noteq> k \<Longrightarrow> py_get_default (PDict (AList.delete k kvs)) k' d = py_get_default (PDict kvs) k' d"
  by (simp add: py_get_default_def delete_conv')

lemma nested_artists_delete:
  "k \<noteq> ''artists'' \<Longrightarrow> nested_artists C (PDict (AList.delete k kvs)) = nested_artists C (PDict kvs)"
  by (simp add: nested_artists_def py_get_default_delete)

lemma artist_base_data_PDict:
  "artist_base_data (PDict kvs) =
     (case map_of kvs ''id'' of None \<Rightarrow> Inl (KeyError ''id'') | Some i \<Rightarrow>
      case map_of kvs ''name'' of None \<Rightarrow> Inl (KeyError ''name'') | Some n \<Rightarrow>
      case map_of kvs ''uri'' of None \<Rightarrow> Inl (KeyError ''uri'') | Some u \<Rightarrow>
      case map_of kvs ''href'' of None \<Rightarrow> Inl (KeyError ''href'') | Some h \<Rightarrow>
        Inr [(''id'', i), (''name'', n), (''uri'', u), (''href'', h),
             (''external_urls'', dget kvs ''external_urls'')])"
  by (simp add: artist_base_data_def py_getitem_PDict py_get_PDict split: option.splits)

lemma artist_base_data_delete:
  assumes "artist_base_data (PDict kvs) = Inr b" "k \<notin> {''id'', ''name'', ''uri'', ''href''}"
  shows "artist_base_data (PDict (AList.delete k kvs)) = Inr (set_none k b)"
proof -
  have m: "map_of (AList.delete k kvs) ''id'' = map_of kvs ''id''"
    "map_of (AList.delete k kvs) ''name'' = map_of kvs ''name''"
    "map_of (AList.delete k kvs) ''uri'' = map_of kvs ''uri''"
    "map_of (AList.delete k kvs) ''href'' = map_of kvs ''href''"
    using assms(2) by (auto simp: delete_conv')
  from assms(1) obtain i n u h where
    l: "map_of kvs ''id'' = Some i" "map_of kvs ''name'' = Some n"
      "map_of kvs ''uri'' = Some u" "map_of kvs ''href'' = Some h" and
    b: "b = [(''id'', i), (''name'', n), (''uri'', u), (''href'', h),
             (''external_urls'', dget kvs ''external_urls'')]"
    by (auto simp: artist_base_data_PDict split: option.splits)
  have s: "set_none k b = [(''id'', i), (''name'', n), (''uri'', u), (''href'', h),
             (''external_urls'', if ''external_urls'' = k then PNone else dget kvs ''external_urls'')]"
    unfolding b set_none_def using assms(2) by auto
  show ?thesis
    unfolding artist_base_data_PDict m l s by (simp add: dget_delete)
qed

lemma playlist_base_data_eq: "playlist_base_data d = artist_base_data d"
  by (simp add: playlist_base_data_def artist_base_data_def)

lemma album_base_data_eq:
  "album_base_data C d =
     ebind (artist_base_data d) (\<lambda>b.
     ebind (nested_artists C d) (\<lambda>a. Inr (b @ [(''artists'', PList a)])))"
  by (simp add: album_base_data_def artist_base_data_def ebind_def split: sum.splits)

lemma track_base_data_eq:
  "track_base_data C d =
     ebind (artist_base_data d) (\<lambda>b.
     ebind (nested_artists C d) (\<lambda>a. Inr (b @ [(''artists'', PList a)])))"
  by (simp add: track_base_data_def artist_base_data_def ebind_def split: sum.splits)

lemma playlist_base_data_delete:
  assumes "playlist_base_data (PDict kvs) = Inr b" "k \<notin> {''id'', ''name'', ''uri'', ''href''}"
  shows "playlist_base_data (PDict (AList.delete k kvs)) = Inr (set_none k b)"
  using assms artist_base_data_delete by (simp add: playlist_base_data_eq)

lemma album_base_data_delete:
  assumes "album_base_data C (PDict kvs) = Inr b"
    "k \<notin> {''id'', ''name'', ''uri'', ''href''}" "k \<noteq> ''artists''"
  shows "album_base_data C (PDict (AList.delete k kvs)) = Inr (set_none k b)"
proof -
  from assms(1) obtain b0 a where
    b0: "artist_base_data (PDict kvs) = Inr b0" and
    a: "nested_artists C (PDict kvs) = Inr a" and
    b: "b = b0 @ [(''artists'', PList a)]"
    by (auto simp: album_base_data_eq ebind_eq_Inr)
  have "set_none k [(''artists'', PList a)] = [(''artists'', PList a)]"
    using assms(3) by (simp add: set_none_def)
  then show ?thesis
    using artist_base_data_delete [OF b0 assms(2)] a b assms(3)
    by (simp add: album_base_data_eq nested_artists_delete)
qed

lemma track_base_data_delete:
  assumes "track_base_data C (PDict kvs) = Inr b"
    "k \<notin> {''id'', ''name'', ''uri'', ''href''}" "k \<noteq> ''artists''"
  shows "track_base_data C (PDict (AList.delete k kvs)) = Inr (set_none k b)"
proof -
  from assms(1) obtain b0 a where
    b0: "artist_base_data (PDict kvs) = Inr b0" and
    a: "nested_artists C (PDict kvs) = Inr a" and
    b: "b = b0 @ [(''artists'', PList a)]"
    by (auto simp: track_base_data_eq ebind_eq_Inr)
  have "set_none k [(''artists'', PList a)] = [(''artists'', PList a)]"
    using assms(3) by (simp add: set_none_def)
  then show ?thesis
    using artist_base_data_delete [OF b0 assms(2)] a b assms(3)
    by (simp add: track_base_data_eq nested_artists_delete)
qed

lemma nested_album_delete:
  "nested_album C (PDict kvs) = Inr a \<Longrightarrow>
   nested_album C (PDict (AList.delete k kvs)) = Inr (if k = ''album'' then PNone else a)"
  by (auto simp: nested_album_def py_get_PDict dget_delete py_getitem_delete)

lemma track_compact_data_delete:
  assumes "track_compact_data C (PDict kvs) = Inr c"
  shows "track_compact_data C (PDict (AList.delete k kvs)) = Inr (set_none k c)"
proof -
  from assms obtain a rest where
    a: "nested_album C (PDict kvs) = Inr a" and
    rest: "gets (PDict kvs) [''duration_ms'', ''explicit'', ''popularity'', ''preview_url'']
             = Inr rest" and
    c: "c = (''album'', a) # rest"
    by (auto simp: track_compact_data_def ebind_eq_Inr)
  show ?thesis
    using nested_album_delete [OF a, of k] gets_delete [OF rest, of k] c
    by (auto simp: track_compact_data_def set_none_def)
qed

lemma parse_artist_delete:
  assumes "parse_artist C (PDict kvs) f = Inr (PModel c fs)" "k \<in> set (optional_keys ARTIST)"
  shows "parse_artist C (PDict (AList.delete k kvs)) f = Inr (PModel c (set_none k fs))"
  using assms(1) unfolding parse_artist_tiered new_Artist_def
proof (rule tiered_set_none)
  show "\<forall>f \<in> set (Artist_fields C). fst f = k \<longrightarrow>
          fst (snd f) PNone = Some PNone \<and> snd (snd f) = Default PNone"
    using assms(2) by (auto simp: Artist_fields_def v_opt_def)
  show "artist_base_data (PDict (AList.delete k kvs)) = Inr (set_none k b)"
    if "artist_base_data (PDict kvs) = Inr b" for b
    using that assms(2) by (intro artist_base_data_delete) auto
qed (erule gets_delete)+

lemma parse_playlist_delete:
  assumes "parse_playlist C (PDict kvs) f = Inr (PModel c fs)"
    "k \<in> set (optional_keys PLAYLIST)"
  shows "parse_playlist C (PDict (AList.delete k kvs)) f = Inr (PModel c (set_none k fs))"
  using assms(1) unfolding parse_playlist_tiered new_Playlist_def
proof (rule tiered_set_none)
  show "\<forall>f \<in> set (Playlist_fields C). fst f = k \<longrightarrow>
          fst (snd f) PNone = Some PNone \<and> snd (snd f) = Default PNone"
    using assms(2) by (auto simp: Playlist_fields_def v_opt_def)
  show "playlist_base_data (PDict (AList.delete k kvs)) = Inr (set_none k b)"
    if "playlist_base_data (PDict kvs) = Inr b" for b
    using that assms(2) by (intro playlist_base_data_delete) auto
qed (erule gets_delete)+

lemma parse_album_delete:
  assumes "parse_album C (PDict kvs) f = Inr (PModel c fs)" "k \<in> set (optional_keys ALBUM)"
  shows "parse_album C (PDict (AList.delete k kvs)) f = Inr (PModel c (set_none k fs))"
  using assms(1) unfolding parse_album_tiered new_Album_def
proof (rule tiered_set_none)
  show "\<forall>f \<in> set (Album_fields C). fst f = k \<longrightarrow>
          fst (snd f) PNone = Some PNone \<and> snd (snd f) = Default PNone"
    using assms(2) by (auto simp: Album_fields_def v_opt_def)
  show "album_base_data C (PDict (AList.delete k kvs)) = Inr (set_none k b)"
    if "album_base_data C (PDict kvs) = Inr b" for b
    using that assms(2) by (intro album_base_data_delete) auto
qed (erule gets_delete)+

lemma parse_track_delete:
  assumes "parse_track C (PDict kvs) f = Inr (PModel c fs)" "k \<in> set (optional_keys TRACK)"
  shows "parse_track C (PDict (AList.delete k kvs)) f = Inr (PModel c (set_none k fs))"
  using assms(1) unfolding parse_track_tiered new_Track_def
proof (rule tiered_set_none)
  show "\<forall>f \<in> set (Track_fields C). fst f = k \<longrightarrow>
          fst (snd f) PNone = Some PNone \<and> snd (snd f) = Default PNone"
    using assms(2) by (auto simp: Track_fields_def v_opt_def)
  show "track_base_data C (PDict (AList.delete k kvs)) = Inr (set_none k b)"
    if "track_base_data C (PDict kvs) = Inr b" for b
    using that assms(2) by (intro track_base_data_delete) auto
qed (erule gets_delete track_compact_data_delete)+

lemma tiered_base_error: "base = Inl e \<Longrightarrow> tiered init base cdata fdata f = Inl e"
  by (simp add: tiered_def)

lemma artist_base_data_missing:
  assumes "k \<in> {''id'', ''name'', ''uri'', ''href''}" "map_of kvs k = None"
  shows "\<exists>k' \<in> {''id'', ''name'', ''uri'', ''href''}.
           artist_base_data (PDict kvs) = Inl (KeyError k')"
  using assms
  by (auto simp: artist_base_data_PDict split: option.splits)

lemma parse_artist_PModel: "parse_artist C d f = Inr r \<Longrightarrow> \<exists>fs. r = PModel Artist fs"
  by (auto simp: parse_artist_tiered tiered_def ebind_eq_Inr new_Artist_def
      dest: model_init_PModel)

lemma parse_album_PModel: "parse_album C d f = Inr r \<Longrightarrow> \<exists>fs. r = PModel Album fs"
  by (auto simp: parse_album_tiered tiered_def ebind_eq_Inr new_Album_def
      dest: model_init_PModel)

lemma parse_track_PModel: "parse_track C d f = Inr r \<Longrightarrow> \<exists>fs. r = PModel Track fs"
  by (auto simp: parse_track_tiered tiered_def ebind_eq_Inr new_Track_def
      dest: model_init_PModel)

lemma parse_playlist_PModel: "parse_playlist C d f = Inr r \<Longrightarrow> \<exists>fs. r = PModel Playlist fs"
  by (auto simp: parse_playlist_tiered tiered_def ebind_eq_Inr new_Playlist_def
      dest: model_init_PModel)

lemma validate_fields_keys: "validate_fields flds kw = Some vs \<Longrightarrow> map fst vs = map fst flds"
proof (induction flds arbitrary: vs)
  case Nil
  then show ?case by simp
next
  case (Cons f fs)
  then show ?case
    by (auto simp: validate_fields_Cons split: option.splits)
qed

lemma model_init_keys:
  assumes "model_init c flds ea kw = Inr (PModel c' fs)"
  shows "set (map fst flds) \<subseteq> fst ` set fs"
proof -
  from assms obtain vs where vs: "validate_fields flds kw = Some vs" and
    fs: "fs = vs @ (if ea then filter (\<lambda>kv. fst kv \<notin> set (map fst flds)) kw else [])"
    by (auto simp: model_init_def split: option.splits)
  from validate_fields_keys [OF vs] have "set (map fst flds) = fst ` set vs"
    by (metis set_map)
  then show ?thesis using fs by auto
qed

lemma populated_set_none: "k \<notin> populated (set_none k fs)"
  by (auto simp: populated_def set_none_def)

lemma map_of_set_none_same: "k \<in> fst ` set fs \<Longrightarrow> map_of (set_none k fs) k = Some PNone"
  by (simp add: map_of_set_none)

lemma parse_artist_keys:
  assumes "parse_artist C d f = Inr (PModel c fs)"
  shows "set (map fst (Artist_fields C)) \<subseteq> fst ` set fs"
proof -
  from assms obtain kw where
    "model_init Artist (Artist_fields C) True kw = Inr (PModel c fs)"
    by (auto simp: parse_artist_tiered tiered_def ebind_eq_Inr new_Artist_def)
  then show ?thesis by (rule model_init_keys)
qed

lemma parse_album_keys:
  assumes "parse_album C d f = Inr (PModel c fs)"
  shows "set (map fst (Album_fields C)) \<subseteq> fst ` set fs"
proof -
  from assms obtain kw where
    "model_init Album (Album_fields C) True kw = Inr (PModel c fs)"
    by (auto simp: parse_album_tiered tiered_def ebind_eq_Inr new_Album_def)
  then show ?thesis by (rule model_init_keys)
qed

lemma parse_track_keys:
  assumes "parse_track C d f = Inr (PModel c fs)"
  shows "set (map fst (Track_fields C)) \<subseteq> fst ` set fs"
proof -
  from assms obtain kw where
    "model_init Track (Track_fields C) True kw = Inr (PModel c fs)"
    by (auto simp: parse_track_tiered tiered_def ebind_eq_Inr new_Track_def)
  then show ?thesis by (rule model_init_keys)
qed

lemma parse_playlist_keys:
  assumes "parse_playlist C d f = Inr (PModel c fs)"
  shows "set (map fst (Playlist_fields C)) \<subseteq> fst ` set fs"
proof -
  from assms obtain kw where
    "model_init Playlist (Playlist_fields C) True kw = Inr (PModel c fs)"
    by (auto simp: parse_playlist_tiered tiered_def ebind_eq_Inr new_Playlist_def)
  then show ?thesis by (rule model_init_keys)
qed

lemma optional_keys_declared:
  "set (optional_keys TRACK) \<subseteq> set (map fst (Track_fields C))"
  "set (optional_keys ARTIST) \<subseteq> set (map fst (Artist_fields C))"
  "set (optional_keys ALBUM) \<subseteq> set (map fst (Album_fields C))"
  "set (optional_keys PLAYLIST) \<subseteq> set (map fst (Playlist_fields C))"
  by (simp_all add: Track_fields_def Artist_fields_def Album_fields_def Playlist_fields_def)

lemma parse_dispatch_delete:
  assumes t: "t \<in> {TRACK, ARTIST, ALBUM, PLAYLIST}" and f: "f \<noteq> RAW"
    and k: "k \<in> set (optional_keys t)"
    and r: "parse_dispatch C (PDict kvs) t f = Inr r"
  shows "\<exists>c fs. r = PModel c fs \<and>
           parse_dispatch C (PDict (AList.delete k kvs)) t f = Inr (PModel c (set_none k fs)) \<and>
           k \<in> fst ` set fs"
proof -
  consider "t = TRACK" | "t = ARTIST" | "t = ALBUM" | "t = PLAYLIST"
    using t by auto
  then show ?thesis
  proof cases
    case 1
    with r f have p: "parse_track C (PDict kvs) f = Inr r" by (simp add: parse_dispatch_def)
    then obtain fs where fs: "r = PModel Track fs" using parse_track_PModel by blast
    have "k \<in> fst ` set fs"
      using parse_track_keys [of C "PDict kvs" f Track fs] p fs k 1
        optional_keys_declared(1) [of C] by blast
    then show ?thesis
      using parse_track_delete [of C kvs f Track fs k] p fs k 1 f
      by (simp add: parse_dispatch_def)
  next
    case 2
    with r f have p: "parse_artist C (PDict kvs) f = Inr r" by (simp add: parse_dispatch_def)
    then obtain fs where fs: "r = PModel Artist fs" using parse_artist_PModel by blast
    have "k \<in> fst ` set fs"
      using parse_artist_keys [of C "PDict kvs" f Artist fs] p fs k 2
        optional_keys_declared(2) [of C] by blast
    then show ?thesis
      using parse_artist_delete [of C kvs f Artist fs k] p fs k 2 f
      by (simp add: parse_dispatch_def)
  next
    case 3
    with r f have p: "parse_album C (PDict kvs) f = Inr r" by (simp add: parse_dispatch_def)
    then obtain fs where fs: "r = PModel Album fs" using parse_album_PModel by blast
    have "k \<in> fst ` set fs"
      using parse_album_keys [of C "PDict kvs" f Album fs] p fs k 3
        optional_keys_declared(3) [of C] by blast
    then show ?thesis
      using parse_album_delete [of C kvs f Album fs k] p fs k 3 f
      by (simp add: parse_dispatch_def)
  next
    case 4
    with r f have p: "parse_playlist C (PDict kvs) f = Inr r" by (simp add: parse_dispatch_def)
    then obtain fs where fs: "r = PModel Playlist fs" using parse_playlist_PModel by blast
    have "k \<in> fst ` set fs"
      using parse_playlist_keys [of C "PDict kvs" f Playlist fs] p fs k 4
        optional_keys_declared(4) [of C] by blast
    then show ?thesis
      using parse_playlist_delete [of C kvs f Playlist fs k] p fs k 4 f
      by (simp add: parse_dispatch_def)
  qed
qed

lemma parse_dispatch_missing:
  assumes t: "t \<in> {TRACK, ARTIST, ALBUM, PLAYLIST}" and f: "f \<noteq> RAW"
    and k: "k \<in> {''id'', ''name'', ''uri'', ''href''}" "map_of kvs k = None"
  shows "\<exists>k' \<in> {''id'', ''name'', ''uri'', ''href''}.
           parse_dispatch C (PDict kvs) t f = Inl (KeyError k')"
proof -
  from artist_base_data_missing [OF k] obtain k' where
    k': "k' \<in> {''id'', ''name'', ''uri'', ''href''}"
      "artist_base_data (PDict kvs) = Inl (KeyError k')"
    by blast
  have "parse_dispatch C (PDict kvs) t f = Inl (KeyError k')"
    using t f k'(2)
    by (auto simp: parse_dispatch_def parse_track_tiered parse_artist_tiered
        parse_album_tiered parse_playlist_tiered tiered_base_error
        playlist_base_data_eq album_base_data_eq track_base_data_eq)
  with k'(1) show ?thesis by blast
qed

lemma map_of_Some_key: "map_of kw k = Some v \<Longrightarrow> k \<in> fst ` set kw"
  by (metis map_of_eq_None_iff option.distinct(1))









lemma tiered_kwargs:
  assumes "tiered init base cdata fdata f = Inr r"
  obtains b c fu where "base = Inr b"
    "(if f \<in> {COMPACT, FULL} then cdata else Inr []) = Inr c"
    "(if f = FULL then fdata else Inr []) = Inr fu"
    "init (dict_update (dict_update b c) fu) = Inr r"
  using assms by (auto simp: tiered_def ebind_eq_Inr)








lemma not_in_keys: "map fst xs = ks \<Longrightarrow> k \<notin> set ks \<Longrightarrow> k \<notin> fst ` set xs"
  by (metis set_map)








lemma set_val_keys [simp]: "map fst (set_val k w fs) = map fst fs"
  by (induction fs) (auto simp: set_val_def)

lemma set_val_append [simp]: "set_val k w (xs @ ys) = set_val k w xs @ set_val k w ys"
  by (simp add: set_val_def)

lemma set_val_absent: "k \<notin> fst ` set fs \<Longrightarrow> set_val k w fs = fs"
  by (induction fs) (auto simp: set_val_def)

lemma set_none_absent: "k \<notin> fst ` set fs \<Longrightarrow> set_none k fs = fs"
  by (induction fs) (auto simp: set_none_def)

lemma map_of_set_val:
  "map_of (set_val k w kw) k' =
     (if k' = k then (if k \<in> fst ` set kw then Some w else None) else map_of kw k')"
  by (induction kw) (force simp: set_val_def)+

lemma set_val_filter:
  "filter (\<lambda>kv. fst kv \<notin> D) (set_val k w kw) = set_val k w (filter (\<lambda>kv. fst kv \<notin> D) kw)"
  by (induction kw) (auto simp: set_val_def)

lemma set_val_update:
  "set_val k w (AList.update k' v d) = AList.update k' (if k' = k then w else v) (set_val k w d)"
  by (induction d) (auto simp: set_val_def)

lemma dict_update_set_val:
  "dict_update (set_val k w d) (set_val k w e) = set_val k w (dict_update d e)"
proof (induction e arbitrary: d)
  case Nil
  then show ?case by (simp add: set_val_def)
next
  case (Cons kv e)
  have "dict_update (set_val k w d) (set_val k w (kv # e)) =
        dict_update (AList.update (fst kv) (if fst kv = k then w else snd kv) (set_val k w d))
          (set_val k w e)"
    by (simp add: dict_update_def set_val_def)
  also have "\<dots> = dict_update (set_val k w (AList.update (fst kv) (snd kv) d)) (set_val k w e)"
    by (simp add: set_val_update)
  also have "\<dots> = set_val k w (dict_update (AList.update (fst kv) (snd kv) d) e)"
    by (rule Cons.IH)
  finally show ?case by (simp add: dict_update_def)
qed

lemma validate_fields_set_val:
  assumes "validate_fields flds kw = Some vs"
    and "\<forall>f \<in> set flds. fst f = k \<longrightarrow> fst (snd f) w = Some w \<and> snd (snd f) = Required"
  shows "validate_fields flds (set_val k w kw) = Some (set_val k w vs)"
  using assms
proof (induction flds arbitrary: vs)
  case Nil
  then show ?case by (simp add: set_val_def)
next
  case (Cons f fs)
  from Cons.prems(1) obtain v rest where
    v: "validate_field f kw = Some v" and
    rest: "validate_fields fs kw = Some rest" and
    vs: "vs = (fst f, v) # rest"
    by (auto simp: validate_fields_Cons split: option.splits)
  have rest': "validate_fields fs (set_val k w kw) = Some (set_val k w rest)"
    using Cons.IH [OF rest] Cons.prems(2) by simp
  have "validate_field f (set_val k w kw) = Some (if fst f = k then w else v)"
  proof (cases "fst f = k")
    case True
    with Cons.prems(2) have f: "fst (snd f) w = Some w" "snd (snd f) = Required" by simp_all
    have "map_of kw k \<noteq> None"
    proof
      assume "map_of kw k = None"
      with v True f(2) show False by (simp add: validate_field_def)
    qed
    then obtain x where "map_of kw k = Some x" by blast
    then have "k \<in> fst ` set kw" by (rule map_of_Some_key)
    with True f(1) show ?thesis by (simp add: validate_field_def map_of_set_val)
  next
    case False
    with v show ?thesis by (simp add: validate_field_def map_of_set_val)
  qed
  then show ?case
    using rest' vs by (auto simp: validate_fields_Cons set_val_def)
qed

lemma model_init_set_val:
  assumes "model_init c flds ea kw = Inr (PModel c' fs)"
    and "\<forall>f \<in> set flds. fst f = k \<longrightarrow> fst (snd f) w = Some w \<and> snd (snd f) = Required"
  shows "model_init c flds ea (set_val k w kw) = Inr (PModel c' (set_val k w fs))"
proof -
  from assms(1) obtain vs where vs: "validate_fields flds kw = Some vs"
    by (auto simp: model_init_def split: option.splits)
  from validate_fields_set_val [OF vs assms(2)] assms(1) vs show ?thesis
    by (auto simp: model_init_def set_val_filter)
qed

lemma tiered_set_val:
  assumes run: "tiered (model_init cl flds ea) base cdata fdata f = Inr (PModel c fs)"
    and b: "\<And>b. base = Inr b \<Longrightarrow> base' = Inr (set_val k w b)"
    and c: "\<And>c. cdata = Inr c \<Longrightarrow> cdata' = Inr (set_val k w c)"
    and fu: "\<And>fu. fdata = Inr fu \<Longrightarrow> fdata' = Inr (set_val k w fu)"
    and req: "\<forall>f \<in> set flds. fst f = k \<longrightarrow> fst (snd f) w = Some w \<and> snd (snd f) = Required"
  shows "tiered (model_init cl flds ea) base' cdata' fdata' f = Inr (PModel c (set_val k w fs))"
proof -
  from run obtain bd cd fd where
    bd: "base = Inr bd" and
    cd: "(if f \<in> {COMPACT, FULL} then cdata else Inr []) = Inr cd" and
    fd: "(if f = FULL then fdata else Inr []) = Inr fd" and
    init: "model_init cl flds ea (dict_update (dict_update bd cd) fd) = Inr (PModel c fs)"
    by (rule tiered_kwargs)
  have cd': "(if f \<in> {COMPACT, FULL} then cdata' else Inr []) = Inr (set_val k w cd)"
    using cd c by (auto simp: set_val_def split: if_splits)
  have fd': "(if f = FULL then fdata' else Inr []) = Inr (set_val k w fd)"
    using fd fu by (auto simp: set_val_def split: if_splits)
  show ?thesis
    unfolding tiered_def
    using b [OF bd] cd' fd' model_init_set_val [OF init req]
    by (simp add: dict_update_set_val)
qed

lemma nested_artists_without:
  "nested_artists C (PDict (AList.delete ''artists'' kvs)) = Inr []"
  by (simp add: nested_artists_def py_get_default_def delete_conv')

lemma gets_delete_other:
  assumes "gets (PDict kvs) ks = Inr c" "k \<notin> set ks"
  shows "gets (PDict (AList.delete k kvs)) ks = Inr (set_val k w c)"
proof -
  have "k \<notin> fst ` set c" by (rule not_in_keys [OF gets_keys [OF assms(1)] assms(2)])
  then have "set_none k c = c" "set_val k w c = c"
    by (simp_all add: set_none_absent set_val_absent)
  with gets_delete [OF assms(1), of k] show ?thesis by simp
qed

lemma track_compact_data_delete_artists:
  assumes "track_compact_data C (PDict kvs) = Inr c"
  shows "track_compact_data C (PDict (AList.delete ''artists'' kvs))
           = Inr (set_val ''artists'' w c)"
proof -
  have "''artists'' \<notin> fst ` set c"
    by (rule not_in_keys [OF track_compact_data_keys [OF assms]]) simp
  then have "set_none ''artists'' c = c" "set_val ''artists'' w c = c"
    by (simp_all add: set_none_absent set_val_absent)
  with track_compact_data_delete [OF assms, of "''artists''"] show ?thesis by simp
qed

lemma base_data_delete_artists:
  assumes "artist_base_data (PDict kvs) = Inr b0"
  shows "artist_base_data (PDict (AList.delete ''artists'' kvs)) = Inr b0"
proof -
  have "''artists'' \<notin> fst ` set b0"
    by (rule not_in_keys [OF artist_base_data_keys [OF assms]]) simp
  then have "set_none ''artists'' b0 = b0" by (rule set_none_absent)
  moreover have "''artists'' \<notin> {''id'', ''name'', ''uri'', ''href''}" by simp
  ultimately show ?thesis
    using artist_base_data_delete [OF assms, of "''artists''"] by simp
qed

lemma album_base_data_delete_artists:
  assumes "album_base_data C (PDict kvs) = Inr b"
  shows "album_base_data C (PDict (AList.delete ''artists'' kvs))
           = Inr (set_val ''artists'' (PList []) b)"
proof -
  from assms obtain b0 a where
    b0: "artist_base_data (PDict kvs) = Inr b0" and
    b: "b = b0 @ [(''artists'', PList a)]"
    by (auto simp: album_base_data_eq ebind_eq_Inr)
  have "''artists'' \<notin> fst ` set b0"
    by (rule not_in_keys [OF artist_base_data_keys [OF b0]]) simp
  then have "set_val ''artists'' (PList []) b = b0 @ [(''artists'', PList [])]"
    by (simp add: b set_val_absent) (simp add: set_val_def)
  then show ?thesis
    using base_data_delete_artists [OF b0]
    by (simp add: album_base_data_eq nested_artists_without)
qed

lemma track_base_data_delete_artists:
  assumes "track_base_data C (PDict kvs) = Inr b"
  shows "track_base_data C (PDict (AList.delete ''artists'' kvs))
           = Inr (set_val ''artists'' (PList []) b)"
proof -
  from assms obtain b0 a where
    b0: "artist_base_data (PDict kvs) = Inr b0" and
    b: "b = b0 @ [(''artists'', PList a)]"
    by (auto simp: track_base_data_eq ebind_eq_Inr)
  have "''artists'' \<notin> fst ` set b0"
    by (rule not_in_keys [OF artist_base_data_keys [OF b0]]) simp
  then have "set_val ''artists'' (PList []) b = b0 @ [(''artists'', PList [])]"
    by (simp add: b set_val_absent) (simp add: set_val_def)
  then show ?thesis
    using base_data_delete_artists [OF b0]
    by (simp add: track_base_data_eq nested_artists_without)
qed

lemma parse_album_delete_artists:
  assumes "parse_album C (PDict kvs) f = Inr (PModel c fs)"
  shows "parse_album C (PDict (AList.delete ''artists'' kvs)) f
           = Inr (PModel c (set_val ''artists'' (PList []) fs))"
  using assms unfolding parse_album_tiered new_Album_def
proof (rule tiered_set_val)
  show "\<forall>f \<in> set (Album_fields C). fst f = ''artists'' \<longrightarrow>
          fst (snd f) (PList []) = Some (PList []) \<and> snd (snd f) = Required"
    by (simp add: Album_fields_def v_list_def)
  show "album_base_data C (PDict (AList.delete ''artists'' kvs))
          = Inr (set_val ''artists'' (PList []) b)"
    if "album_base_data C (PDict kvs) = Inr b" for b
    using that by (rule album_base_data_delete_artists)
  show "gets (PDict (AList.delete ''artists'' kvs))
          [''images'', ''album_type'', ''total_tracks'', ''release_date'']
          = Inr (set_val ''artists'' (PList []) c)"
    if "gets (PDict kvs) [''images'', ''album_type'', ''total_tracks'', ''release_date'']
          = Inr c" for c
    using that by (rule gets_delete_other) simp
  show "gets (PDict (AList.delete ''artists'' kvs))
          [''release_date_precision'', ''genres'', ''popularity'', ''external_ids'']
          = Inr (set_val ''artists'' (PList []) fu)"
    if "gets (PDict kvs)
          [''release_date_precision'', ''genres'', ''popularity'', ''external_ids'']
          = Inr fu" for fu
    using that by (rule gets_delete_other) simp
qed

lemma parse_track_delete_artists:
  assumes "parse_track C (PDict kvs) f = Inr (PModel c fs)"
  shows "parse_track C (PDict (AList.delete ''artists'' kvs)) f
           = Inr (PModel c (set_val ''artists'' (PList []) fs))"
  using assms unfolding parse_track_tiered new_Track_def
proof (rule tiered_set_val)
  show "\<forall>f \<in> set (Track_fields C). fst f = ''artists'' \<longrightarrow>
          fst (snd f) (PList []) = Some (PList []) \<and> snd (snd f) = Required"
    by (simp add: Track_fields_def v_list_def)
  show "track_base_data C (PDict (AList.delete ''artists'' kvs))
          = Inr (set_val ''artists'' (PList []) b)"
    if "track_base_data C (PDict kvs) = Inr b" for b
    using that by (rule track_base_data_delete_artists)
  show "track_compact_data C (PDict (AList.delete ''artists'' kvs))
          = Inr (set_val ''artists'' (PList []) c)"
    if "track_compact_data C (PDict kvs) = Inr c" for c
    using that by (rule track_compact_data_delete_artists)
  show "gets (PDict (AList.delete ''artists'' kvs))
          [''track_number'', ''disc_number'', ''is_local'', ''external_ids'']
          = Inr (set_val ''artists'' (PList []) fu)"
    if "gets (PDict kvs) [''track_number'', ''disc_number'', ''is_local'', ''external_ids'']
          = Inr fu" for fu
    using that by (rule gets_delete_other) simp
qed

lemma map_of_set_val_same: "k \<in> fst ` set fs \<Longrightarrow> map_of (set_val k w fs) k = Some w"
  by (simp add: map_of_set_val)

lemma parse_dispatch_delete_artists:
  assumes t: "t \<in> {TRACK, ALBUM}" and f: "f \<noteq> RAW"
    and r: "parse_dispatch C (PDict kvs) t f = Inr r"
  shows "\<exists>c fs. r = PModel c fs \<and>
           parse_dispatch C (PDict (AList.delete ''artists'' kvs)) t f
             = Inr (PModel c (set_val ''artists'' (PList []) fs)) \<and>
           map_of (set_val ''artists'' (PList []) fs) ''artists'' = Some (PList [])"
proof -
  consider "t = TRACK" | "t = ALBUM" using t by auto
  then show ?thesis
  proof cases
    case 1
    with r f have p: "parse_track C (PDict kvs) f = Inr r" by (simp add: parse_dispatch_def)
    then obtain fs where fs: "r = PModel Track fs" using parse_track_PModel by blast
    have "''artists'' \<in> set (map fst (Track_fields C))" by (simp add: Track_fields_def)
    with parse_track_keys [of C "PDict kvs" f Track fs] p fs
    have "''artists'' \<in> fst ` set fs" by blast
    then have "map_of (set_val ''artists'' (PList []) fs) ''artists'' = Some (PList [])"
      by (rule map_of_set_val_same)
    then show ?thesis
      using parse_track_delete_artists [of C kvs f Track fs] p fs 1 f
      by (simp add: parse_dispatch_def)
  next
    case 2
    with r f have p: "parse_album C (PDict kvs) f = Inr r" by (simp add: parse_dispatch_def)
    then obtain fs where fs: "r = PModel Album fs" using parse_album_PModel by blast
    have "''artists'' \<in> set (map fst (Album_fields C))" by (simp add: Album_fields_def)
    with parse_album_keys [of C "PDict kvs" f Album fs] p fs
    have "''artists'' \<in> fst ` set fs" by blast
    then have "map_of (set_val ''artists'' (PList []) fs) ''artists'' = Some (PList [])"
      by (rule map_of_set_val_same)
    then show ?thesis
      using parse_album_delete_artists [of C kvs f Album fs] p fs 2 f
      by (simp add: parse_dispatch_def)
  qed
qed

text \<open>
  Claim C3, as amended. For a raw object of one of the four catalog types and a format
  other than \<open>RAW\<close>: when one of the keys \<open>id\<close>, \<open>name\<close>, \<open>uri\<close>, \<open>href\<close> is missing,
  the builder raises the \<^verbatim>\<open>KeyError\<close> of a missing key, no object with a placeholder
  is built, and the normalizer hands back the raw object; when the object normalizes
  and an optional key is removed from it, it still normalizes, to the same object with
  that field \<^verbatim>\<open>None\<close>; and when a Track or Album normalizes and its key \<open>artists\<close>
  (a required field of both schemas) is removed, it still normalizes, to the same
  object with the empty list for \<open>artists\<close>.
\<close>

theorem required_optional_and_defaulted_fields:
  assumes "obj_type \<in> {TRACK, ARTIST, ALBUM, PLAYLIST}" and "format \<noteq> RAW"
  shows "(k \<in> {''id'', ''name'', ''uri'', ''href''} \<and> map_of kvs k = None \<longrightarrow>
            (\<exists>k' \<in> {''id'', ''name'', ''uri'', ''href''}.
               parse_dispatch C (PDict kvs) obj_type format = Inl (KeyError k')) \<and>
            parse_object C (PDict kvs) obj_type format = PDict kvs) \<and>
         (k \<in> set (optional_keys obj_type) \<and>
          parse_dispatch C (PDict kvs) obj_type format = Inr r \<longrightarrow>
            (\<exists>c fs. r = PModel c fs \<and>
               parse_dispatch C (PDict (AList.delete k kvs)) obj_type format
                 = Inr (PModel c (set_none k fs)) \<and>
               map_of (set_none k fs) k = Some PNone \<and>
               k \<notin> fields_populated (PModel c (set_none k fs)))) \<and>
         (obj_type \<in> {TRACK, ALBUM} \<and>
          parse_dispatch C (PDict kvs) obj_type format = Inr r \<longrightarrow>
            (\<exists>c fs. r = PModel c fs \<and>
               parse_dispatch C (PDict (AList.delete ''artists'' kvs)) obj_type format
                 = Inr (PModel c (set_val ''artists'' (PList []) fs)) \<and>
               map_of (set_val ''artists'' (PList []) fs) ''artists'' = Some (PList []))) \<and>
         ''artists'' \<in> set (required_fields (Track_fields C)) \<and>
         ''artists'' \<in> set (required_fields (Album_fields C))"
proof (intro conjI impI)
  assume req: "k \<in> {''id'', ''name'', ''uri'', ''href''} \<and> map_of kvs k = None"
  then have k1: "k \<in> {''id'', ''name'', ''uri'', ''href''}" and k2: "map_of kvs k = None"
    by simp_all
  from parse_dispatch_missing [OF assms k1 k2]
  show e: "\<exists>k' \<in> {''id'', ''name'', ''uri'', ''href''}.
      parse_dispatch C (PDict kvs) obj_type format = Inl (KeyError k')" .
  then show "parse_object C (PDict kvs) obj_type format = PDict kvs"
    by (auto simp: parse_object_def)
next
  assume opt: "k \<in> set (optional_keys obj_type) \<and>
    parse_dispatch C (PDict kvs) obj_type format = Inr r"
  then have o1: "k \<in> set (optional_keys obj_type)"
    and o2: "parse_dispatch C (PDict kvs) obj_type format = Inr r"
    by simp_all
  from parse_dispatch_delete [OF assms o1 o2]
  obtain c fs where "r = PModel c fs"
    "parse_dispatch C (PDict (AList.delete k kvs)) obj_type format
       = Inr (PModel c (set_none k fs))" "k \<in> fst ` set fs"
    by blast
  then show "\<exists>c fs. r = PModel c fs \<and>
      parse_dispatch C (PDict (AList.delete k kvs)) obj_type format
        = Inr (PModel c (set_none k fs)) \<and>
      map_of (set_none k fs) k = Some PNone \<and>
      k \<notin> fields_populated (PModel c (set_none k fs))"
    using map_of_set_none_same populated_set_none by auto
next
  assume art: "obj_type \<in> {TRACK, ALBUM} \<and>
    parse_dispatch C (PDict kvs) obj_type format = Inr r"
  then have a1: "obj_type \<in> {TRACK, ALBUM}"
    and a2: "parse_dispatch C (PDict kvs) obj_type format = Inr r"
    by simp_all
  from parse_dispatch_delete_artists [OF a1 assms(2) a2]
  show "\<exists>c fs. r = PModel c fs \<and>
      parse_dispatch C (PDict (AList.delete ''artists'' kvs)) obj_type format
        = Inr (PModel c (set_val ''artists'' (PList []) fs)) \<and>
      map_of (set_val ''artists'' (PList []) fs) ''artists'' = Some (PList [])" .
next
  show "''artists'' \<in> set (required_fields (Track_fields C))"
    by (simp add: required_fields_def Track_fields_def)
  show "''artists'' \<in> set (required_fields (Album_fields C))"
    by (simp add: required_fields_def Album_fields_def)
qed

text \<open>
  The claim as stated, for every required field, fails at \<open>artists\<close>: this track has
  no such key, the field is required by the schema, and the builder succeeds with the
  empty list in its place instead of raising.
\<close>

theorem missing_artists_gets_placeholder:
  "map_of track_without_artists_entries ''artists'' = None \<and>
   ''artists'' \<in> set (required_fields (Track_fields no_coercions)) \<and>
   parse_dispatch no_coercions (PDict track_without_artists_entries) TRACK FULL =
     Inr (PModel Track
           [(''id'', PStr ''t3''), (''name'', PStr ''Third Track''),
            (''type'', PStr ''track''), (''uri'', PStr ''spotify:track:t3''),
            (''href'', PStr ''https://api/tracks/t3''),
            (''external_urls'', PNone), (''artists'', PList []),
            (''album'', PNone), (''duration_ms'', PInt 1000),
            (''explicit'', PNone), (''popularity'', PNone),
            (''preview_url'', PNone), (''track_number'', PNone),
            (''disc_number'', PNone), (''is_local'', PNone),
            (''external_ids'', PNone)]) \<and>
   parse_object no_coercions (PDict track_without_artists_entries) TRACK FULL
     \<noteq> PDict track_without_artists_entries"
  by code_simp

theorem required_optional_and_defaulted_fields_witness:
  "ARTIST \<in> {TRACK, ARTIST, ALBUM, PLAYLIST} \<and> TRACK \<in> {TRACK, ARTIST, ALBUM, PLAYLIST} \<and>
   FULL \<noteq> RAW \<and>
   ''id'' \<in> {''id'', ''name'', ''uri'', ''href''} \<and>
   map_of (AList.delete ''id'' example_artist_entries) ''id'' = None \<and>
   parse_object no_coercions (PDict (AList.delete ''id'' example_artist_entries)) ARTIST FULL
     = PDict (AList.delete ''id'' example_artist_entries) \<and>
   ''genres'' \<in> set (optional_keys ARTIST) \<and>
   (\<exists>c fs. parse_dispatch no_coercions (PDict example_artist_entries) ARTIST FULL
              = Inr (PModel c fs) \<and>
      parse_dispatch no_coercions (PDict (AList.delete ''genres'' example_artist_entries))
        ARTIST FULL = Inr (PModel c (set_none ''genres'' fs)) \<and>
      map_of (set_none ''genres'' fs) ''genres'' = Some PNone \<and>
      ''genres'' \<notin> fields_populated (PModel c (set_none ''genres'' fs))) \<and>
   TRACK \<in> {TRACK, ALBUM} \<and>
   (\<exists>c fs. parse_dispatch no_coercions (PDict example_track_entries) TRACK FULL
              = Inr (PModel c fs) \<and>
      parse_dispatch no_coercions (PDict (AList.delete ''artists'' example_track_entries))
        TRACK FULL = Inr (PModel c (set_val ''artists'' (PList []) fs)) \<and>
      map_of (set_val ''artists'' (PList []) fs) ''artists'' = Some (PList []))"
proof -
  have t: "ARTIST \<in> {TRACK, ARTIST, ALBUM, PLAYLIST}" by simp
  have t': "TRACK \<in> {TRACK, ARTIST, ALBUM, PLAYLIST}" by simp
  have f: "FULL \<noteq> RAW" by simp
  have m: "''id'' \<in> {''id'', ''name'', ''uri'', ''href''} \<and>
      map_of (AList.delete ''id'' example_artist_entries) ''id'' = None"
    by (simp add: delete_conv')
  have o: "''genres'' \<in> set (optional_keys ARTIST)" by simp
  have ta: "TRACK \<in> {TRACK, ALBUM}" by simp
  have "case parse_dispatch no_coercions (PDict example_artist_entries) ARTIST FULL of
          Inr r \<Rightarrow> True | Inl e \<Rightarrow> False"
    by code_simp
  then obtain r where
    r: "parse_dispatch no_coercions (PDict example_artist_entries) ARTIST FULL = Inr r"
    by (auto split: sum.splits)
  have "case parse_dispatch no_coercions (PDict example_track_entries) TRACK FULL of
          Inr r \<Rightarrow> True | Inl e \<Rightarrow> False"
    by code_simp
  then obtain r' where
    r': "parse_dispatch no_coercions (PDict example_track_entries) TRACK FULL = Inr r'"
    by (auto split: sum.splits)
  have A: "parse_object no_coercions (PDict (AList.delete ''id'' example_artist_entries))
      ARTIST FULL = PDict (AList.delete ''id'' example_artist_entries)"
    using required_optional_and_defaulted_fields [OF t f, where k = "''id''"
        and kvs = "AList.delete ''id'' example_artist_entries" and C = no_coercions] m
    by blast
  have B: "\<exists>c fs. r = PModel c fs \<and>
      parse_dispatch no_coercions (PDict (AList.delete ''genres'' example_artist_entries))
        ARTIST FULL = Inr (PModel c (set_none ''genres'' fs)) \<and>
      map_of (set_none ''genres'' fs) ''genres'' = Some PNone \<and>
      ''genres'' \<notin> fields_populated (PModel c (set_none ''genres'' fs))"
    using required_optional_and_defaulted_fields [OF t f, where k = "''genres''"
        and kvs = example_artist_entries and C = no_coercions and r = r] o r
    by blast
  have D: "\<exists>c fs. r' = PModel c fs \<and>
      parse_dispatch no_coercions (PDict (AList.delete ''artists'' example_track_entries))
        TRACK FULL = Inr (PModel c (set_val ''artists'' (PList []) fs)) \<and>
      map_of (set_val ''artists'' (PList []) fs) ''artists'' = Some (PList [])"
    using required_optional_and_defaulted_fields [OF t' f, where
        kvs = example_track_entries and C = no_coercions and r = r'] ta r'
    by blast
  show ?thesis
    using t t' f m o ta A B D r r' by blast
qed

lemma foldr_max_le:
  "(\<forall>x \<in> set xs. g x \<le> n) \<Longrightarrow> foldr max (map g xs) (0::nat) \<le> n"
  by (induction xs) auto

lemma foldr_max_zero:
  "(\<forall>x \<in> set xs. g x = 0) \<Longrightarrow> foldr max (map g xs) (0::nat) = 0"
  by (induction xs) auto

lemma is_json_depth: "is_json v \<Longrightarrow> domain_depth v = 0"
proof (induction v rule: domain_depth.induct)
  case (1 c fs)
  then show ?case by simp
next
  case (2 xs)
  then show ?case by (auto simp: list_all_iff intro!: foldr_max_zero)
next
  case (3 kvs)
  then show ?case by (auto simp: list_all_iff intro!: foldr_max_zero)
qed simp_all




lemma flat_v_str [simp]: "flat (v_str C)"
  by (auto simp: flat_def v_str_def split: pyval.splits)

lemma flat_v_int [simp]: "flat (v_int C)"
  by (auto simp: flat_def v_int_def split: pyval.splits)

lemma flat_v_bool [simp]: "flat (v_bool C)"
  by (auto simp: flat_def v_bool_def split: pyval.splits)

lemma flat_v_float [simp]: "flat (v_float C)"
  by (auto simp: flat_def v_float_def split: pyval.splits)

lemma flat_v_dict_any [simp]: "flat v_dict_any"
proof -
  have "domain_depth v' = 0" if "is_json v" "v_dict_any v = Some v'" for v v'
  proof -
    from that(2) have "v' = v" by (auto simp: v_dict_any_def split: pyval.splits)
    with that(1) show ?thesis by (simp add: is_json_depth)
  qed
  then show ?thesis unfolding flat_def by blast
qed

lemma flat_v_opt [simp]: "flat vd \<Longrightarrow> flat (v_opt vd)"
  by (auto simp: flat_def v_opt_def split: if_splits)

lemma those_map_depth:
  assumes "those (map vd xs) = Some ys" "\<forall>x \<in> set xs. \<forall>y. vd x = Some y \<longrightarrow> domain_depth y = 0"
  shows "\<forall>y \<in> set ys. domain_depth y = 0"
  using assms
proof (induction xs arbitrary: ys)
  case Nil
  then show ?case by simp
next
  case (Cons x xs)
  then show ?case by (auto split: option.splits)
qed

lemma flat_v_list [simp]:
  assumes "flat vd"
  shows "flat (v_list vd)"
  unfolding flat_def
proof (intro allI impI)
  fix v v'
  assume j: "is_json v" and r: "v_list vd v = Some v'"
  from r obtain xs ys where v: "v = PList xs" and ys: "those (map vd xs) = Some ys"
    and v': "v' = PList ys"
    by (auto simp: v_list_def split: pyval.splits)
  from j v have "\<forall>x \<in> set xs. is_json x" by (simp add: list_all_iff)
  with assms have "\<forall>x \<in> set xs. \<forall>y. vd x = Some y \<longrightarrow> domain_depth y = 0"
    by (auto simp: flat_def)
  from those_map_depth [OF ys this] show "domain_depth v' = 0"
    by (simp add: v' foldr_max_zero)
qed

lemma validate_fields_depth:
  assumes "validate_fields flds kw = Some vs"
    and "\<forall>f \<in> set flds. \<forall>v'. validate_field f kw = Some v' \<longrightarrow> domain_depth v' \<le> n"
  shows "\<forall>kv \<in> set vs. domain_depth (snd kv) \<le> n"
  using assms
proof (induction flds arbitrary: vs)
  case Nil
  then show ?case by simp
next
  case (Cons f fs)
  from Cons.prems(1) obtain v rest where
    v: "validate_field f kw = Some v" and
    rest: "validate_fields fs kw = Some rest" and
    vs: "vs = (fst f, v) # rest"
    by (auto simp: validate_fields_Cons split: option.splits)
  from Cons.IH [OF rest] Cons.prems(2) have "\<forall>kv \<in> set rest. domain_depth (snd kv) \<le> n"
    by simp
  moreover from v Cons.prems(2) have "domain_depth v \<le> n" by simp
  ultimately show ?case by (simp add: vs)
qed

lemma field_value_depth:
  assumes v': "validate_field f kw = Some v'"
    and flat: "fst f \<notin> S \<longrightarrow> flat (fst (snd f))"
    and dflt: "\<forall>d. snd (snd f) = Default d \<longrightarrow> domain_depth d = 0"
    and json: "\<forall>kv \<in> set kw. fst kv \<notin> S \<longrightarrow> is_json (snd kv)"
    and specd: "\<forall>kv \<in> set kw. fst kv \<in> S \<longrightarrow> domain_depth (snd kv) \<le> n"
    and specv: "\<forall>v. fst f \<in> S \<longrightarrow> map_of kw (fst f) = Some v \<longrightarrow> fst (snd f) v = Some v"
  shows "domain_depth v' \<le> n"
proof (cases "map_of kw (fst f)")
  case None
  with v' dflt show ?thesis
    by (auto simp: validate_field_def split: fdefault.splits)
next
  case (Some v)
  then have mem: "(fst f, v) \<in> set kw" by (rule map_of_SomeD)
  from v' Some have val: "fst (snd f) v = Some v'" by (simp add: validate_field_def)
  show ?thesis
  proof (cases "fst f \<in> S")
    case True
    with specv Some val have "v' = v" by simp
    moreover from specd mem True have "domain_depth v \<le> n" by force
    ultimately show ?thesis by simp
  next
    case False
    with json mem have "is_json v" by force
    with flat False val have "domain_depth v' = 0" by (auto simp: flat_def)
    then show ?thesis by simp
  qed
qed

lemma model_init_depth_special:
  assumes init: "model_init c flds ea kw = Inr r"
    and flat: "\<forall>f \<in> set flds. fst f \<notin> S \<longrightarrow> flat (fst (snd f))"
    and dflt: "\<forall>f \<in> set flds. \<forall>d. snd (snd f) = Default d \<longrightarrow> domain_depth d = 0"
    and json: "\<forall>kv \<in> set kw. fst kv \<notin> S \<longrightarrow> is_json (snd kv)"
    and specd: "\<forall>kv \<in> set kw. fst kv \<in> S \<longrightarrow> domain_depth (snd kv) \<le> n"
    and specv: "\<forall>f \<in> set flds. \<forall>v. fst f \<in> S \<longrightarrow> map_of kw (fst f) = Some v \<longrightarrow>
                  fst (snd f) v = Some v"
  shows "domain_depth r \<le> (if c \<in> {Artist, Album, Track, Playlist} then 1 else 0) + n"
proof -
  from init obtain vs where vs: "validate_fields flds kw = Some vs" and
    r: "r = PModel c (vs @ (if ea then filter (\<lambda>kv. fst kv \<notin> set (map fst flds)) kw else []))"
    by (auto simp: model_init_def split: option.splits)
  have "\<forall>f \<in> set flds. \<forall>v'. validate_field f kw = Some v' \<longrightarrow> domain_depth v' \<le> n"
  proof (intro ballI allI impI)
    fix f v'
    assume f: "f \<in> set flds" and v': "validate_field f kw = Some v'"
    show "domain_depth v' \<le> n"
      using v' flat dflt json specd specv f
      by (intro field_value_depth [where f = f and kw = kw and S = S]) auto
  qed
  from validate_fields_depth [OF vs this]
  have d1: "\<forall>kv \<in> set vs. domain_depth (snd kv) \<le> n" .
  have d2: "\<forall>kv \<in> set kw. domain_depth (snd kv) \<le> n"
  proof
    fix kv assume kv: "kv \<in> set kw"
    show "domain_depth (snd kv) \<le> n"
    proof (cases "fst kv \<in> S")
      case True
      with specd kv show ?thesis by simp
    next
      case False
      with json kv have "is_json (snd kv)" by simp
      then show ?thesis by (simp add: is_json_depth)
    qed
  qed
  have "\<forall>kv \<in> set (vs @ (if ea then filter (\<lambda>kv. fst kv \<notin> set (map fst flds)) kw else [])).
          domain_depth (snd kv) \<le> n"
    using d1 d2 by auto
  then have "foldr max (map (\<lambda>kv. domain_depth (snd kv))
      (vs @ (if ea then filter (\<lambda>kv. fst kv \<notin> set (map fst flds)) kw else []))) 0 \<le> n"
    by (rule foldr_max_le)
  then show ?thesis unfolding r by simp
qed

lemma flat_v_model:
  assumes c: "c \<notin> {Artist, Album, Track, Playlist}"
    and flat: "\<forall>f \<in> set flds. flat (fst (snd f))"
    and dflt: "\<forall>f \<in> set flds. \<forall>d. snd (snd f) = Default d \<longrightarrow> domain_depth d = 0"
  shows "flat (v_model c (model_init c flds ea))"
  unfolding flat_def
proof (intro allI impI)
  fix v v'
  assume j: "is_json v" and r: "v_model c (model_init c flds ea) v = Some v'"
  from j r obtain kw where v: "v = PDict kw" and init: "model_init c flds ea kw = Inr v'"
    by (cases v) (auto simp: v_model_def split: sum.splits)
  from j v have json: "\<forall>kv \<in> set kw. fst kv \<notin> {} \<longrightarrow> is_json (snd kv)"
    by (simp add: list_all_iff)
  have "domain_depth v' \<le> (if c \<in> {Artist, Album, Track, Playlist} then 1 else 0) + 0"
    using init flat dflt json
    by (intro model_init_depth_special [where S = "{}" and kw = kw and flds = flds]) auto
  with c show "domain_depth v' = 0" by simp
qed

lemma flat_ExternalUrls [simp]: "flat (v_model ExternalUrls (new_ExternalUrls C))"
  unfolding new_ExternalUrls_def
  by (rule flat_v_model) (simp_all add: ExternalUrls_fields_def)

lemma flat_ExternalIds [simp]: "flat (v_model ExternalIds (new_ExternalIds C))"
  unfolding new_ExternalIds_def
  by (rule flat_v_model) (simp_all add: ExternalIds_fields_def)

lemma flat_Followers [simp]: "flat (v_model Followers (new_Followers C))"
  unfolding new_Followers_def
  by (rule flat_v_model) (simp_all add: Followers_fields_def)

lemma flat_SpotifyImage [simp]: "flat (v_model SpotifyImage (new_SpotifyImage C))"
  unfolding new_SpotifyImage_def
  by (rule flat_v_model) (simp_all add: SpotifyImage_fields_def)
































end
